theory Spec2Isabelle
  imports Complex_Main "HOL-Library.Product_Lexorder" "HOL-Library.Sublist"
begin

section \<open>Python values\<close>

text \<open>
  The ranking function of \<^verbatim>\<open>app/api/endpoints/bag.py\<close> works on untyped dictionaries that
  come out of the catalogue store. A value is one of the Python values such a document
  can hold. A dictionary is an association list with string keys; \<open>map_of\<close> is the lookup.
  A float is a finite number, written as the real it denotes, an infinity or NaN.
\<close>

datatype pyfloat = Finite real | PosInf | NegInf | NaN

datatype pyval =
    PNone
  | PBool bool
  | PInt int
  | PFloat pyfloat
  | PStr string
  | PList "pyval list"
  | PDict "(string \<times> pyval) list"

type_synonym pydict = "(string \<times> pyval) list"

datatype py_error =
    KeyError
  | IndexError
  | TypeError
  | ValueError
  | OverflowError
  | AttributeError
  | ValidationError

text \<open>
  A raise is the value \<open>Inl\<close>; \<open>and_then\<close> runs the next statement on the result of the
  previous one and passes a raise through.
\<close>

definition and_then :: "py_error + 'a \<Rightarrow> ('a \<Rightarrow> py_error + 'b) \<Rightarrow> py_error + 'b" where
  "and_then m f = (case m of Inl err \<Rightarrow> Inl err | Inr x \<Rightarrow> f x)"

text \<open>Truth value testing, as \<^verbatim>\<open>if x:\<close> and \<^verbatim>\<open>x or y\<close> do it.\<close>

fun truthy :: "pyval \<Rightarrow> bool" where
  "truthy PNone = False"
| "truthy (PBool b) = b"
| "truthy (PInt i) = (i \<noteq> 0)"
| "truthy (PFloat f) = (f \<noteq> Finite 0)"
| "truthy (PStr s) = (s \<noteq> [])"
| "truthy (PList xs) = (xs \<noteq> [])"
| "truthy (PDict d) = (d \<noteq> [])"

text \<open>\<^verbatim>\<open>d.get(k, dflt)\<close> on a dictionary.\<close>

definition dict_get :: "pydict \<Rightarrow> string \<Rightarrow> pyval \<Rightarrow> pyval" where
  "dict_get d k dflt = (case map_of d k of None \<Rightarrow> dflt | Some v \<Rightarrow> v)"

text \<open>\<^verbatim>\<open>d[k]\<close> on a dictionary: a missing key raises.\<close>

definition dict_getitem :: "pydict \<Rightarrow> string \<Rightarrow> py_error + pyval" where
  "dict_getitem d k = (case map_of d k of None \<Rightarrow> Inl KeyError | Some v \<Rightarrow> Inr v)"

text \<open>\<^verbatim>\<open>x.get(k, dflt)\<close> on any value: only a dictionary has the method.\<close>

definition py_get :: "pyval \<Rightarrow> string \<Rightarrow> pyval \<Rightarrow> py_error + pyval" where
  "py_get x k dflt = (case x of PDict d \<Rightarrow> Inr (dict_get d k dflt) | _ \<Rightarrow> Inl AttributeError)"

text \<open>\<^verbatim>\<open>x[k]\<close> with a string key on any value.\<close>

definition py_getitem :: "pyval \<Rightarrow> string \<Rightarrow> py_error + pyval" where
  "py_getitem x k = (case x of PDict d \<Rightarrow> dict_getitem d k | _ \<Rightarrow> Inl TypeError)"

text \<open>
  The first code point of a UTF-8 string: its first byte and the continuation bytes
  (\<open>10xxxxxx\<close>) that follow it.
\<close>

definition is_continuation :: "char \<Rightarrow> bool" where
  "is_continuation c = (128 \<le> (of_char c :: nat) \<and> (of_char c :: nat) < 192)"

fun first_code_point :: "string \<Rightarrow> string" where
  "first_code_point [] = []"
| "first_code_point (c # cs) = c # takeWhile is_continuation cs"

text \<open>\<^verbatim>\<open>x[0]\<close> on any value.\<close>

fun py_index0 :: "pyval \<Rightarrow> py_error + pyval" where
  "py_index0 (PList []) = Inl IndexError"
| "py_index0 (PList (x # xs)) = Inr x"
| "py_index0 (PStr []) = Inl IndexError"
| "py_index0 (PStr (c # cs)) = Inr (PStr (first_code_point (c # cs)))"
| "py_index0 (PDict d) = Inl KeyError"
| "py_index0 PNone = Inl TypeError"
| "py_index0 (PBool b) = Inl TypeError"
| "py_index0 (PInt i) = Inl TypeError"
| "py_index0 (PFloat r) = Inl TypeError"

text \<open>\<^verbatim>\<open>s.replace(a, b)\<close> for single characters \<open>a\<close> and \<open>b\<close>.\<close>

definition replace :: "char \<Rightarrow> char \<Rightarrow> string \<Rightarrow> string" where
  "replace a b s = map (\<lambda>c. if c = a then b else c) s"

section \<open>What the code takes from Python and pydantic\<close>

text \<open>
  The source adds floats, rounds a float to three decimals, converts a stored value with
  \<^verbatim>\<open>float()\<close> and lets pydantic validate the fields of its models. None of these is code of
  the repository, so they are parameters of the model: every theorem holds for whatever
  binary64 addition, \<^verbatim>\<open>round(x, 3)\<close>, number parsing and lax coercion do.
  \<^item> \<open>fadd\<close> is float addition, \<open>round3\<close> is \<^verbatim>\<open>round(x, 3)\<close>;
  \<^item> \<open>float_of_int\<close> and \<open>float_of_str\<close> are \<^verbatim>\<open>float()\<close> on an integer and on a string;
  \<^item> \<open>coerce_str\<close> and \<open>coerce_bool\<close> are what pydantic does with a value that is not
    already a \<^verbatim>\<open>str\<close> or a \<^verbatim>\<open>bool\<close> (\<open>None\<close> when it rejects the value).
\<close>

record env =
  fadd :: "pyfloat \<Rightarrow> pyfloat \<Rightarrow> pyfloat"
  round3 :: "pyfloat \<Rightarrow> pyfloat"
  float_of_int :: "int \<Rightarrow> py_error + pyfloat"
  float_of_str :: "string \<Rightarrow> py_error + pyfloat"
  coerce_str :: "pyval \<Rightarrow> string option"
  coerce_bool :: "pyval \<Rightarrow> bool option"

text \<open>\<^verbatim>\<open>float(x)\<close>: numbers and booleans convert, strings are parsed, the rest raises.\<close>

fun py_float :: "env \<Rightarrow> pyval \<Rightarrow> py_error + pyfloat" where
  "py_float e (PFloat f) = Inr f"
| "py_float e (PInt i) = float_of_int e i"
| "py_float e (PBool b) = Inr (Finite (if b then 1 else 0))"
| "py_float e (PStr s) = float_of_str e s"
| "py_float e PNone = Inl TypeError"
| "py_float e (PList xs) = Inl TypeError"
| "py_float e (PDict d) = Inl TypeError"

text \<open>Validation of a field of type \<^verbatim>\<open>str\<close>, \<^verbatim>\<open>Optional[str]\<close> and \<^verbatim>\<open>bool\<close>.\<close>

definition validate_str :: "env \<Rightarrow> pyval \<Rightarrow> py_error + string" where
  "validate_str e v =
     (case v of
        PStr s \<Rightarrow> Inr s
      | _ \<Rightarrow> (case coerce_str e v of None \<Rightarrow> Inl ValidationError | Some s \<Rightarrow> Inr s))"

definition validate_opt_str :: "env \<Rightarrow> pyval \<Rightarrow> py_error + string option" where
  "validate_opt_str e v =
     (case v of
        PNone \<Rightarrow> Inr None
      | _ \<Rightarrow> (case validate_str e v of Inl err \<Rightarrow> Inl err | Inr s \<Rightarrow> Inr (Some s)))"

definition validate_bool :: "env \<Rightarrow> pyval \<Rightarrow> py_error + bool" where
  "validate_bool e v =
     (case v of
        PBool b \<Rightarrow> Inr b
      | _ \<Rightarrow> (case coerce_bool e v of None \<Rightarrow> Inl ValidationError | Some b \<Rightarrow> Inr b))"

section \<open>The models of bag.py\<close>

text \<open>
  Three fields are renamed: \<^verbatim>\<open>image\<close> of \<^verbatim>\<open>ProductInShop\<close> is \<open>image_ref\<close> and
  \<^verbatim>\<open>total\<close> of \<^verbatim>\<open>ShopTotal\<close> is \<open>total_price\<close>, since \<open>image\<close> and \<open>total\<close> are
  constants of HOL; \<^verbatim>\<open>products\<close> of \<^verbatim>\<open>CategoryResult\<close> is \<open>result_products\<close>, since
  \<open>products\<close> is already the field of \<^verbatim>\<open>ShopTotal\<close>.
\<close>

record ProductInShop =
  sku :: string
  title :: string
  image_ref :: "string option"
  price :: "pyfloat option"
  available :: bool

record ShopTotal =
  shop :: string
  total_price :: pyfloat
  products :: "ProductInShop list"
  available_count :: int
  missing_count :: int

record CategoryResult =
  category :: string
  category_label :: string
  best_shop :: "string option"
  best_total :: "pyfloat option"
  shop_totals :: "ShopTotal list"
  result_products :: "pydict list"

record BestShopResponse =
  para_result :: "CategoryResult option"
  retail_result :: "CategoryResult option"

definition PARA_SHOPS :: "string list" where
  "PARA_SHOPS = [''parashop'', ''pharma-shop'', ''parafendri'']"

definition RETAIL_SHOPS :: "string list" where
  "RETAIL_SHOPS = [''mytek'', ''tunisianet'', ''spacenet'']"

text \<open>
  The constructor call \<^verbatim>\<open>ProductInShop(sku=product["sku"], title=product["title"], image=...,
  price=..., available=...)\<close>: the two subscripts are evaluated first, then pydantic
  validates the five fields. The price is already a float or \<^verbatim>\<open>None\<close>.
\<close>

definition new_ProductInShop ::
  "env \<Rightarrow> pydict \<Rightarrow> pyval \<Rightarrow> pyfloat option \<Rightarrow> pyval \<Rightarrow> py_error + ProductInShop" where
  "new_ProductInShop e product image_v price_v available_v =
     and_then (dict_getitem product ''sku'') (\<lambda>sku_v.
     and_then (dict_getitem product ''title'') (\<lambda>title_v.
     and_then (validate_str e sku_v) (\<lambda>s.
     and_then (validate_str e title_v) (\<lambda>t.
     and_then (validate_opt_str e image_v) (\<lambda>i.
     and_then (validate_bool e available_v) (\<lambda>a.
       Inr \<lparr>sku = s, title = t, image_ref = i, price = price_v, available = a\<rparr>))))))"

section \<open>calculate\_shop\_totals\_for\_products\<close>

text \<open>
  Line 74: \<^verbatim>\<open>shops_data.get(shop) or shops_data.get(shop.replace("-", "_")) or
  shops_data.get(shop.replace("_", "-"))\<close>. An \<^verbatim>\<open>or\<close> yields its left operand when that is
  truthy, and its right operand otherwise.
\<close>

definition find_shop_data :: "pyval \<Rightarrow> string \<Rightarrow> py_error + pyval" where
  "find_shop_data shops_data s =
     and_then (py_get shops_data s PNone) (\<lambda>a.
       if truthy a then Inr a
       else and_then (py_get shops_data (replace CHR ''-'' CHR ''_'' s) PNone) (\<lambda>b.
         if truthy b then Inr b
         else py_get shops_data (replace CHR ''_'' CHR ''-'' s) PNone))"

text \<open>Lines 72 to 74: the offer of a product at a shop.\<close>

definition shop_offer :: "pydict \<Rightarrow> string \<Rightarrow> py_error + pyval" where
  "shop_offer product s = find_shop_data (dict_get product ''shops'' (PDict [])) s"

text \<open>Line 76: \<^verbatim>\<open>shop_data and shop_data.get("price") is not None\<close>.\<close>

definition has_price :: "pyval \<Rightarrow> py_error + bool" where
  "has_price shop_data =
     (if truthy shop_data
      then and_then (py_get shop_data ''price'' PNone) (\<lambda>v. Inr (v \<noteq> PNone))
      else Inr False)"

text \<open>The four accumulators of the loop over the products of one shop.\<close>

record shop_acc =
  acc_total :: pyfloat
  products_in_shop :: "ProductInShop list"
  acc_available :: int
  acc_missing :: int

definition acc_init :: shop_acc where
  "acc_init = \<lparr>acc_total = Finite 0, products_in_shop = [], acc_available = 0, acc_missing = 0\<rparr>"

text \<open>Lines 77 to 96: the offer has a price.\<close>

definition priced_branch :: "env \<Rightarrow> pydict \<Rightarrow> pyval \<Rightarrow> shop_acc \<Rightarrow> py_error + shop_acc" where
  "priced_branch e product shop_data acc =
     and_then (py_getitem shop_data ''price'') (\<lambda>pv.
     and_then (py_float e pv) (\<lambda>p.
     and_then (py_get shop_data ''available'' (PBool True)) (\<lambda>av.
     and_then (py_get shop_data ''images'' (PList [])) (\<lambda>images.
     and_then (if truthy images then py_index0 images else Inr PNone) (\<lambda>img.
     and_then (new_ProductInShop e product img (Some p) av) (\<lambda>entry.
       Inr (if truthy av
            then acc\<lparr>acc_total := fadd e (acc_total acc) p,
                     products_in_shop := products_in_shop acc @ [entry],
                     acc_available := acc_available acc + 1\<rparr>
            else acc\<lparr>products_in_shop := products_in_shop acc @ [entry],
                     acc_missing := acc_missing acc + 1\<rparr>)))))))"

text \<open>Lines 98 to 106: no offer, or an offer without a price.\<close>

definition missing_branch :: "env \<Rightarrow> pydict \<Rightarrow> shop_acc \<Rightarrow> py_error + shop_acc" where
  "missing_branch e product acc =
     and_then (new_ProductInShop e product PNone None (PBool False)) (\<lambda>entry.
       Inr (acc\<lparr>products_in_shop := products_in_shop acc @ [entry],
                acc_missing := acc_missing acc + 1\<rparr>))"

text \<open>Lines 72 to 106: the body of the loop over the products.\<close>

definition product_step :: "env \<Rightarrow> string \<Rightarrow> pydict \<Rightarrow> shop_acc \<Rightarrow> py_error + shop_acc" where
  "product_step e s product acc =
     and_then (shop_offer product s) (\<lambda>shop_data.
     and_then (has_price shop_data) (\<lambda>priced.
       if priced then priced_branch e product shop_data acc
       else missing_branch e product acc))"

text \<open>Line 71: \<^verbatim>\<open>for product in products\<close>.\<close>

fun products_loop :: "env \<Rightarrow> string \<Rightarrow> pydict list \<Rightarrow> shop_acc \<Rightarrow> py_error + shop_acc" where
  "products_loop e s [] acc = Inr acc"
| "products_loop e s (product # rest) acc =
     (case product_step e s product acc of
        Inl err \<Rightarrow> Inl err
      | Inr acc' \<Rightarrow> products_loop e s rest acc')"

text \<open>Lines 109 to 115: the entry that a shop emits.\<close>

definition new_ShopTotal :: "env \<Rightarrow> string \<Rightarrow> shop_acc \<Rightarrow> ShopTotal" where
  "new_ShopTotal e s acc =
     \<lparr>shop = s, total_price = round3 e (acc_total acc), products = products_in_shop acc,
      available_count = acc_available acc, missing_count = acc_missing acc\<rparr>"

text \<open>Lines 65 to 115: \<^verbatim>\<open>for shop in shop_list\<close>, appending to \<^verbatim>\<open>shop_totals\<close>.\<close>

fun shops_loop :: "env \<Rightarrow> pydict list \<Rightarrow> string list \<Rightarrow> ShopTotal list \<Rightarrow> py_error + ShopTotal list" where
  "shops_loop e ps [] sts = Inr sts"
| "shops_loop e ps (s # rest) sts =
     (case products_loop e s ps acc_init of
        Inl err \<Rightarrow> Inl err
      | Inr acc \<Rightarrow>
          shops_loop e ps rest
            (if acc_available acc > 0 then sts @ [new_ShopTotal e s acc] else sts))"

text \<open>
  Line 118: \<^verbatim>\<open>shop_totals.sort(key=lambda x: (x.missing_count, x.total))\<close>. The sort compares
  the key tuples with \<^verbatim>\<open><\<close> only. Between floats \<^verbatim>\<open><\<close> and \<^verbatim>\<open>==\<close> are those of IEEE 754:
  both are false as soon as one side is NaN.
\<close>

fun flt :: "pyfloat \<Rightarrow> pyfloat \<Rightarrow> bool" where
  "flt NaN b = False"
| "flt a NaN = False"
| "flt (Finite x) (Finite y) = (x < y)"
| "flt (Finite x) PosInf = True"
| "flt (Finite x) NegInf = False"
| "flt NegInf NegInf = False"
| "flt NegInf b = True"
| "flt PosInf b = False"

definition feq :: "pyfloat \<Rightarrow> pyfloat \<Rightarrow> bool" where
  "feq a b = (a \<noteq> NaN \<and> b \<noteq> NaN \<and> a = b)"

text \<open>
  \<^verbatim>\<open>a < b\<close> on two tuples \<^verbatim>\<open>(missing_count, total)\<close>: the first components that are not
  equal decide, and two equal tuples are not smaller than each other.
\<close>

definition key_lt :: "int \<times> pyfloat \<Rightarrow> int \<times> pyfloat \<Rightarrow> bool" where
  "key_lt a b =
     (if fst a \<noteq> fst b then fst a < fst b
      else if feq (snd a) (snd b) then False
      else flt (snd a) (snd b))"

text \<open>
  \<^verbatim>\<open>list.sort\<close> as CPython runs it on a list of fewer than 64 entries: it takes the longest
  run at the start of the list, either non-descending (no entry smaller than the one
  before it) or strictly descending (every entry smaller than the one before it, and then
  the run is reversed), and inserts the remaining entries one by one into the run, each at
  the place a binary search finds. On a longer list CPython merges several such runs; the
  result is the same whenever \<^verbatim>\<open><\<close> orders the keys, since the sort is stable.
\<close>

fun asc_run :: "('a \<Rightarrow> 'a \<Rightarrow> bool) \<Rightarrow> 'a \<Rightarrow> 'a list \<Rightarrow> 'a list \<times> 'a list" where
  "asc_run lt prev [] = ([], [])"
| "asc_run lt prev (x # xs) =
     (if lt x prev then ([], x # xs)
      else (let (run, rest) = asc_run lt x xs in (x # run, rest)))"

fun desc_run :: "('a \<Rightarrow> 'a \<Rightarrow> bool) \<Rightarrow> 'a \<Rightarrow> 'a list \<Rightarrow> 'a list \<times> 'a list" where
  "desc_run lt prev [] = ([], [])"
| "desc_run lt prev (x # xs) =
     (if lt x prev then (let (run, rest) = desc_run lt x xs in (x # run, rest))
      else ([], x # xs))"

fun count_run :: "('a \<Rightarrow> 'a \<Rightarrow> bool) \<Rightarrow> 'a list \<Rightarrow> 'a list \<times> 'a list" where
  "count_run lt [] = ([], [])"
| "count_run lt [a] = ([a], [])"
| "count_run lt (a # b # xs) =
     (if lt b a then (let (run, rest) = desc_run lt a (b # xs) in (rev (a # run), rest))
      else (let (run, rest) = asc_run lt a (b # xs) in (a # run, rest)))"

function bisect :: "('a \<Rightarrow> 'a \<Rightarrow> bool) \<Rightarrow> 'a \<Rightarrow> 'a list \<Rightarrow> nat \<Rightarrow> nat \<Rightarrow> nat" where
  "bisect lt pivot xs l r =
     (if l < r
      then (let p = l + (r - l) div 2
            in if lt pivot (xs ! p) then bisect lt pivot xs l p
               else bisect lt pivot xs (p + 1) r)
      else l)"
  by pat_completeness auto
termination
  by (relation "measure (\<lambda>(lt, pivot, xs, l, r). r - l)") auto

declare bisect.simps [simp del]

definition binary_insert :: "('a \<Rightarrow> 'a \<Rightarrow> bool) \<Rightarrow> 'a list \<Rightarrow> 'a \<Rightarrow> 'a list" where
  "binary_insert lt run pivot =
     (let l = bisect lt pivot run 0 (length run) in take l run @ pivot # drop l run)"

definition list_sort :: "('a \<Rightarrow> 'a \<Rightarrow> bool) \<Rightarrow> 'a list \<Rightarrow> 'a list" where
  "list_sort lt xs = (let (run, rest) = count_run lt xs in foldl (binary_insert lt) run rest)"

definition sort_key_of :: "ShopTotal \<Rightarrow> int \<times> pyfloat" where
  "sort_key_of x = (missing_count x, total_price x)"

definition sort_shop_totals :: "ShopTotal list \<Rightarrow> ShopTotal list" where
  "sort_shop_totals sts = list_sort (\<lambda>a b. key_lt (sort_key_of a) (sort_key_of b)) sts"

text \<open>
  Lines 121 to 133: the loop with \<^verbatim>\<open>break\<close> is \<open>find\<close>; the fallback runs when
  \<^verbatim>\<open>best_shop\<close> is still \<^verbatim>\<open>None\<close> and the list is not empty.
\<close>

definition select_best :: "ShopTotal list \<Rightarrow> string option \<times> pyfloat option" where
  "select_best sts =
     (case find (\<lambda>st. missing_count st = 0 \<and> available_count st > 0) sts of
        Some st \<Rightarrow> (Some (shop st), Some (total_price st))
      | None \<Rightarrow>
          (case sts of
             [] \<Rightarrow> (None, None)
           | st # _ \<Rightarrow> (Some (shop st), Some (total_price st))))"

definition calculate_shop_totals_for_products ::
  "env \<Rightarrow> pydict list \<Rightarrow> string list \<Rightarrow> py_error + (ShopTotal list \<times> string option \<times> pyfloat option)" where
  "calculate_shop_totals_for_products e ps shop_list =
     (case shops_loop e ps shop_list [] of
        Inl err \<Rightarrow> Inl err
      | Inr raw \<Rightarrow>
          (let sts = sort_shop_totals raw; (bs, bt) = select_best sts
           in Inr (sts, bs, bt)))"

section \<open>Notions used in the statements\<close>

text \<open>
  A product has a usable offer at a shop when the lookup of lines 72 to 74 succeeds and
  the test of line 76 holds.
\<close>

definition usable_offer :: "pydict \<Rightarrow> string \<Rightarrow> bool" where
  "usable_offer product s =
     (case shop_offer product s of
        Inl err \<Rightarrow> False
      | Inr shop_data \<Rightarrow> has_price shop_data = Inr True)"

text \<open>
  The price that a product adds to the total of a shop: the converted price of its offer
  there, when the offer has a price other than \<open>None\<close> and its stored flag (\<open>True\<close> when it
  has none) is truthy, as line 92 tests it; nothing otherwise. These are the offers that
  the available count counts.
\<close>

definition counted :: "env \<Rightarrow> string \<Rightarrow> pydict \<Rightarrow> pyfloat option" where
  "counted e s product =
     (case shop_offer product s of
        Inr (PDict d) \<Rightarrow>
          (case map_of d ''price'' of
             None \<Rightarrow> None
           | Some pv \<Rightarrow>
               if pv \<noteq> PNone \<and> truthy (dict_get d ''available'' (PBool True))
               then (case py_float e pv of Inl err \<Rightarrow> None | Inr r \<Rightarrow> Some r)
               else None)
      | _ \<Rightarrow> None)"



text \<open>What one round of the loop over the shops appends: one entry or nothing.\<close>

definition emitted :: "env \<Rightarrow> pydict list \<Rightarrow> string \<Rightarrow> ShopTotal list" where
  "emitted e ps s =
     (case products_loop e s ps acc_init of
        Inl err \<Rightarrow> []
      | Inr acc \<Rightarrow> if acc_available acc > 0 then [new_ShopTotal e s acc] else [])"


section \<open>calculate\_best\_shop\<close>

text \<open>
  Lines 191 to 219 of \<^verbatim>\<open>calculate_best_shop\<close>: what the handler does once the two product
  lists are resolved. Reading the request and the catalogue (lines 144 to 189) is left to
  the caller of this model.
\<close>

text \<open>\<^verbatim>\<open>[{"sku": p["sku"], "title": p["title"]} for p in products]\<close>\<close>

fun product_summaries :: "pydict list \<Rightarrow> py_error + pydict list" where
  "product_summaries [] = Inr []"
| "product_summaries (p # ps) =
     and_then (dict_getitem p ''sku'') (\<lambda>sku_v.
     and_then (dict_getitem p ''title'') (\<lambda>title_v.
     and_then (product_summaries ps) (\<lambda>rest.
       Inr ([(''sku'', sku_v), (''title'', title_v)] # rest))))"

definition new_CategoryResult ::
  "env \<Rightarrow> string \<Rightarrow> string \<Rightarrow> string list \<Rightarrow> pydict list \<Rightarrow> py_error + CategoryResult" where
  "new_CategoryResult e cat label shop_list ps =
     and_then (calculate_shop_totals_for_products e ps shop_list) (\<lambda>(sts, bs, bt).
     and_then (product_summaries ps) (\<lambda>summaries.
       Inr \<lparr>category = cat, category_label = label, best_shop = bs, best_total = bt,
            shop_totals = sts, result_products = summaries\<rparr>))"

text \<open>The label of the retail category starts with a capital E with an acute accent, two bytes in UTF-8.\<close>

definition retail_label :: string where
  "retail_label = CHR 0xC3 # CHR 0x89 # ''lectronique''"

definition calculate_best_shop :: "env \<Rightarrow> pydict list \<Rightarrow> pydict list \<Rightarrow> py_error + BestShopResponse" where
  "calculate_best_shop e para_products retail_products =
     and_then
       (if para_products \<noteq> []
        then and_then (new_CategoryResult e ''para'' ''Parapharmacie'' PARA_SHOPS para_products)
               (\<lambda>r. Inr (Some r))
        else Inr None) (\<lambda>para.
     and_then
       (if retail_products \<noteq> []
        then and_then (new_CategoryResult e ''retail'' retail_label RETAIL_SHOPS retail_products)
               (\<lambda>r. Inr (Some r))
        else Inr None) (\<lambda>retail.
       Inr \<lparr>para_result = para, retail_result = retail\<rparr>))"

section \<open>An instance of the parameters\<close>

text \<open>
  The examples below are evaluated with exact arithmetic on the finite floats and the
  rules of IEEE 754 for the infinities and NaN: addition, rounding of the third decimal to
  the nearest with ties to even, the literals \<open>[+-]digits[.digits]\<close>, \<open>[+-]inf\<close>,
  \<open>[+-]infinity\<close> and \<open>[+-]nan\<close> (Python also reads exponents, underscores and blanks,
  which this instance rejects), and the conversions of pydantic's lax mode for \<^verbatim>\<open>bool\<close>.
  On the numbers used in the examples (small integers, NaN) binary64 arithmetic gives the
  same results.
\<close>

definition round_half_even :: "real \<Rightarrow> int" where
  "round_half_even y =
     (let f = \<lfloor>y\<rfloor>; d = y - of_int f
      in if d < 1 / 2 then f else if 1 / 2 < d then f + 1 else if even f then f else f + 1)"

fun exact_round3 :: "pyfloat \<Rightarrow> pyfloat" where
  "exact_round3 (Finite x) = Finite (of_int (round_half_even (x * 1000)) / 1000)"
| "exact_round3 f = f"

fun exact_fadd :: "pyfloat \<Rightarrow> pyfloat \<Rightarrow> pyfloat" where
  "exact_fadd NaN b = NaN"
| "exact_fadd a NaN = NaN"
| "exact_fadd (Finite x) (Finite y) = Finite (x + y)"
| "exact_fadd (Finite x) b = b"
| "exact_fadd a (Finite y) = a"
| "exact_fadd PosInf PosInf = PosInf"
| "exact_fadd NegInf NegInf = NegInf"
| "exact_fadd PosInf NegInf = NaN"
| "exact_fadd NegInf PosInf = NaN"

definition is_digit :: "char \<Rightarrow> bool" where
  "is_digit c = (48 \<le> (of_char c :: nat) \<and> (of_char c :: nat) \<le> 57)"

definition digits_value :: "string \<Rightarrow> nat" where
  "digits_value s = foldl (\<lambda>n c. 10 * n + (of_char c - 48)) 0 s"

definition parse_unsigned :: "string \<Rightarrow> real option" where
  "parse_unsigned s =
     (let ip = takeWhile is_digit s
      in case dropWhile is_digit s of
           [] \<Rightarrow> if ip = [] then None else Some (real (digits_value ip))
         | c # fp \<Rightarrow>
             if c = CHR ''.'' \<and> list_all is_digit fp \<and> (ip \<noteq> [] \<or> fp \<noteq> [])
             then Some (real (digits_value ip) + real (digits_value fp) / 10 ^ length fp)
             else None)"

definition to_lower :: "char \<Rightarrow> char" where
  "to_lower c =
     (if 65 \<le> (of_char c :: nat) \<and> (of_char c :: nat) \<le> 90 then char_of ((of_char c :: nat) + 32) else c)"

fun fneg :: "pyfloat \<Rightarrow> pyfloat" where
  "fneg (Finite x) = Finite (- x)"
| "fneg PosInf = NegInf"
| "fneg NegInf = PosInf"
| "fneg NaN = NaN"

definition parse_magnitude :: "string \<Rightarrow> pyfloat option" where
  "parse_magnitude s =
     (if map to_lower s \<in> set [''inf'', ''infinity''] then Some PosInf
      else if map to_lower s = ''nan'' then Some NaN
      else map_option Finite (parse_unsigned s))"

definition parse_float :: "string \<Rightarrow> pyfloat option" where
  "parse_float s =
     (case s of
        [] \<Rightarrow> None
      | c # cs \<Rightarrow>
          if c = CHR ''-'' then map_option fneg (parse_magnitude cs)
          else if c = CHR ''+'' then parse_magnitude cs
          else parse_magnitude s)"

definition lax_bool :: "pyval \<Rightarrow> bool option" where
  "lax_bool v =
     (case v of
        PInt i \<Rightarrow> if i = 0 then Some False else if i = 1 then Some True else None
      | PFloat f \<Rightarrow> if f = Finite 0 then Some False else if f = Finite 1 then Some True else None
      | PStr s \<Rightarrow>
          if map to_lower s \<in> set [''0'', ''off'', ''f'', ''false'', ''n'', ''no''] then Some False
          else if map to_lower s \<in> set [''1'', ''on'', ''t'', ''true'', ''y'', ''yes''] then Some True
          else None
      | _ \<Rightarrow> None)"

definition exact_env :: env where
  "exact_env =
     \<lparr>fadd = exact_fadd,
      round3 = exact_round3,
      float_of_int = (\<lambda>i. Inr (Finite (of_int i))),
      float_of_str = (\<lambda>s. case parse_float s of None \<Rightarrow> Inl ValueError | Some f \<Rightarrow> Inr f),
      coerce_str = (\<lambda>v. None),
      coerce_bool = lax_bool\<rparr>"

section \<open>Example bags\<close>

text \<open>Bags on which the statements below are evaluated, with the results of the run.\<close>

definition example_a :: "pydict list" where
  "example_a =
     [[(''sku'', PStr ''p1''), (''title'', PStr ''soap''),
       (''shops'', PDict [(''X'', PDict [(''price'', PInt 10), (''available'', PBool True)]),
                          (''Y'', PDict [(''price'', PInt 8), (''available'', PBool True)])])]]"

definition example_a_result :: "ShopTotal list" where
  "example_a_result =
     [\<lparr>shop = ''Y'', total_price = Finite 8,
       products = [\<lparr>sku = ''p1'', title = ''soap'', image_ref = None, price = Some (Finite 8), available = True\<rparr>],
       available_count = 1, missing_count = 0\<rparr>,
      \<lparr>shop = ''X'', total_price = Finite 10,
       products = [\<lparr>sku = ''p1'', title = ''soap'', image_ref = None, price = Some (Finite 10), available = True\<rparr>],
       available_count = 1, missing_count = 0\<rparr>]"

definition example_b :: "pydict list" where
  "example_b =
     [[(''sku'', PStr ''p1''), (''title'', PStr ''soap''),
       (''shops'', PDict [(''X'', PDict [(''price'', PInt 10), (''available'', PBool True)])])],
      [(''sku'', PStr ''p2''), (''title'', PStr ''balm''),
       (''shops'', PDict [(''Y'', PDict [(''price'', PInt 5), (''available'', PBool True)])])]]"

definition example_b_result :: "ShopTotal list" where
  "example_b_result =
     [\<lparr>shop = ''Y'', total_price = Finite 5,
       products = [\<lparr>sku = ''p1'', title = ''soap'', image_ref = None, price = None, available = False\<rparr>,
                   \<lparr>sku = ''p2'', title = ''balm'', image_ref = None, price = Some (Finite 5), available = True\<rparr>],
       available_count = 1, missing_count = 1\<rparr>,
      \<lparr>shop = ''X'', total_price = Finite 10,
       products = [\<lparr>sku = ''p1'', title = ''soap'', image_ref = None, price = Some (Finite 10), available = True\<rparr>,
                   \<lparr>sku = ''p2'', title = ''balm'', image_ref = None, price = None, available = False\<rparr>],
       available_count = 1, missing_count = 1\<rparr>]"

definition example_c :: "pydict list" where
  "example_c =
     [[(''sku'', PStr ''p1''), (''title'', PStr ''soap''),
       (''shops'', PDict [(''X'', PDict [(''price'', PInt 5)]),
                          (''Y'', PDict [(''price'', PInt 5)]),
                          (''Z'', PDict [(''price'', PInt 3)])])],
      [(''sku'', PStr ''p2''), (''title'', PStr ''balm''),
       (''shops'', PDict [(''X'', PDict [(''price'', PInt 1)]),
                          (''Y'', PDict [(''price'', PInt 1)])])]]"

definition example_c_raw :: "ShopTotal list" where
  "example_c_raw =
     [\<lparr>shop = ''Z'', total_price = Finite 3,
       products = [\<lparr>sku = ''p1'', title = ''soap'', image_ref = None, price = Some (Finite 3), available = True\<rparr>,
                   \<lparr>sku = ''p2'', title = ''balm'', image_ref = None, price = None, available = False\<rparr>],
       available_count = 1, missing_count = 1\<rparr>,
      \<lparr>shop = ''Y'', total_price = Finite 6,
       products = [\<lparr>sku = ''p1'', title = ''soap'', image_ref = None, price = Some (Finite 5), available = True\<rparr>,
                   \<lparr>sku = ''p2'', title = ''balm'', image_ref = None, price = Some (Finite 1), available = True\<rparr>],
       available_count = 2, missing_count = 0\<rparr>,
      \<lparr>shop = ''X'', total_price = Finite 6,
       products = [\<lparr>sku = ''p1'', title = ''soap'', image_ref = None, price = Some (Finite 5), available = True\<rparr>,
                   \<lparr>sku = ''p2'', title = ''balm'', image_ref = None, price = Some (Finite 1), available = True\<rparr>],
       available_count = 2, missing_count = 0\<rparr>]"

definition example_c_result :: "ShopTotal list" where
  "example_c_result = [example_c_raw ! 1, example_c_raw ! 2, example_c_raw ! 0]"

definition example_negative :: pydict where
  "example_negative =
     [(''sku'', PStr ''p1''), (''title'', PStr ''soap''),
      (''shops'', PDict [(''X'', PDict [(''price'', PFloat (Finite (- 5))), (''available'', PBool True)])])]"

definition example_non_numeric :: pydict where
  "example_non_numeric =
     [(''sku'', PStr ''p1''), (''title'', PStr ''soap''),
      (''shops'', PDict [(''X'', PDict [(''price'', PList []), (''available'', PBool True)])])]"



definition example_retail :: "pydict list" where
  "example_retail =
     [[(''sku'', PStr ''r1''), (''title'', PStr ''phone''),
       (''shops'', PDict [(''mytek'', PDict [(''price'', PInt 10)])])]]"

definition example_unstocked :: "pydict list" where
  "example_unstocked = [[(''sku'', PStr ''p9''), (''title'', PStr ''soap''), (''shops'', PDict [])]]"

definition example_retail_result :: CategoryResult where
  "example_retail_result =
     \<lparr>category = ''retail'', category_label = retail_label,
      best_shop = Some ''mytek'', best_total = Some (Finite 10),
      shop_totals =
        [\<lparr>shop = ''mytek'', total_price = Finite 10,
          products = [\<lparr>sku = ''r1'', title = ''phone'', image_ref = None, price = Some (Finite 10), available = True\<rparr>],
          available_count = 1, missing_count = 0\<rparr>],
      result_products = [[(''sku'', PStr ''r1''), (''title'', PStr ''phone'')]]\<rparr>"

definition example_unstocked_result :: CategoryResult where
  "example_unstocked_result =
     \<lparr>category = ''para'', category_label = ''Parapharmacie'',
      best_shop = None, best_total = None, shop_totals = [],
      result_products = [[(''sku'', PStr ''p9''), (''title'', PStr ''soap'')]]\<rparr>"



definition example_flag_string :: "pydict list" where
  "example_flag_string =
     [[(''sku'', PStr ''p1''), (''title'', PStr ''soap''),
       (''shops'', PDict [(''X'', PDict [(''price'', PInt 3), (''available'', PStr ''false'')])])]]"

definition example_mixed :: "pydict list" where
  "example_mixed =
     [[(''sku'', PStr ''p1''), (''title'', PStr ''soap''),
       (''shops'', PDict [(''X'', PDict [(''price'', PInt 10), (''available'', PBool True)])])],
      [(''sku'', PStr ''p2''), (''title'', PStr ''balm''),
       (''shops'', PDict [(''X'', PDict [(''price'', PInt 7), (''available'', PBool False)])])]]"

definition example_mixed_entry :: ShopTotal where
  "example_mixed_entry =
     \<lparr>shop = ''X'', total_price = Finite 10,
      products = [\<lparr>sku = ''p1'', title = ''soap'', image_ref = None, price = Some (Finite 10), available = True\<rparr>,
                  \<lparr>sku = ''p2'', title = ''balm'', image_ref = None, price = Some (Finite 7), available = False\<rparr>],
      available_count = 1, missing_count = 1\<rparr>"



section \<open>Lemmas on the sort\<close>

lemma list_sort_Nil [simp]: "list_sort lt [] = []"
  by (simp add: list_sort_def)

lemma asc_run_append: "asc_run lt prev xs = (run, rest) \<Longrightarrow> run @ rest = xs"
  by (induction xs arbitrary: prev run rest) (auto split: if_splits prod.splits)

lemma desc_run_append: "desc_run lt prev xs = (run, rest) \<Longrightarrow> run @ rest = xs"
  by (induction xs arbitrary: prev run rest) (auto split: if_splits prod.splits)

lemma set_binary_insert: "set (binary_insert lt run x) = insert x (set run)"
proof -
  have "set (take l run) \<union> set (drop l run) = set run" for l
    by (metis append_take_drop_id set_append)
  then show ?thesis by (auto simp: binary_insert_def Let_def)
qed

lemma set_foldl_binary_insert: "set (foldl (binary_insert lt) run rest) = set run \<union> set rest"
  by (induction rest arbitrary: run) (auto simp: set_binary_insert)

lemma count_run_set: "count_run lt xs = (run, rest) \<Longrightarrow> set run \<union> set rest = set xs"
proof (induction lt xs rule: count_run.induct)
  case (3 lt a b xs)
  show ?case
  proof (cases "lt b a")
    case True
    with 3 obtain r where r: "desc_run lt a (b # xs) = (r, rest)" "run = rev (a # r)"
      by (auto split: prod.splits)
    from desc_run_append [OF r(1)] have "set r \<union> set rest = set (b # xs)"
      by (metis set_append)
    with r(2) show ?thesis by auto
  next
    case False
    with 3 obtain r where r: "asc_run lt a (b # xs) = (r, rest)" "run = a # r"
      by (auto split: prod.splits)
    from asc_run_append [OF r(1)] have "set r \<union> set rest = set (b # xs)"
      by (metis set_append)
    with r(2) show ?thesis by auto
  qed
qed auto

lemma set_list_sort [simp]: "set (list_sort lt xs) = set xs"
proof -
  obtain run rest where c: "count_run lt xs = (run, rest)" by (cases "count_run lt xs")
  then show ?thesis using count_run_set [OF c] by (simp add: list_sort_def set_foldl_binary_insert)
qed









section \<open>Lemmas on the loops\<close>

lemma and_then_Inl [simp]: "and_then (Inl err) f = Inl err"
  by (simp add: and_then_def)

lemma and_then_Inr [simp]: "and_then (Inr x) f = f x"
  by (simp add: and_then_def)

lemma and_then_eq_Inr: "and_then m f = Inr y \<longleftrightarrow> (\<exists>x. m = Inr x \<and> f x = Inr y)"
  by (cases m) simp_all

lemma shops_loop_emitted:
  "shops_loop e ps shop_list sts = Inr r \<Longrightarrow> r = sts @ concat (map (emitted e ps) shop_list)"
proof (induction shop_list arbitrary: sts)
  case Nil
  then show ?case by simp
next
  case (Cons s rest)
  from Cons.prems obtain acc where acc: "products_loop e s ps acc_init = Inr acc"
    by (auto split: sum.splits)
  show ?case
  proof (cases "0 < acc_available acc")
    case True
    with Cons.prems acc have "shops_loop e ps rest (sts @ [new_ShopTotal e s acc]) = Inr r" by simp
    from Cons.IH [OF this] True acc show ?thesis by (simp add: emitted_def)
  next
    case False
    with Cons.prems acc have "shops_loop e ps rest sts = Inr r" by simp
    from Cons.IH [OF this] False acc show ?thesis by (simp add: emitted_def)
  qed
qed

lemma shops_loop_products_loop:
  "shops_loop e ps shop_list sts = Inr r \<Longrightarrow> s \<in> set shop_list \<Longrightarrow>
     \<exists>acc. products_loop e s ps acc_init = Inr acc"
  by (induction shop_list arbitrary: sts) (auto split: sum.splits)

lemma emitted_cases:
  "st \<in> set (emitted e ps s) \<Longrightarrow>
     \<exists>acc. products_loop e s ps acc_init = Inr acc \<and> 0 < acc_available acc \<and> st = new_ShopTotal e s acc"
  by (cases "products_loop e s ps acc_init") (auto simp: emitted_def split: if_splits)

lemma emitted_shop: "st \<in> set (emitted e ps s) \<Longrightarrow> shop st = s"
  by (auto dest: emitted_cases simp: new_ShopTotal_def)

lemma emitted_available: "st \<in> set (emitted e ps s) \<Longrightarrow> 0 < available_count st"
  by (auto dest: emitted_cases simp: new_ShopTotal_def)


lemma calculate_Inr:
  "calculate_shop_totals_for_products e ps shop_list = Inr (sts, bs, bt) \<Longrightarrow>
     \<exists>raw. shops_loop e ps shop_list [] = Inr raw \<and> sts = sort_shop_totals raw \<and> (bs, bt) = select_best sts"
  by (auto simp: calculate_shop_totals_for_products_def Let_def split: sum.splits prod.splits)

lemma calculate_set:
  assumes "calculate_shop_totals_for_products e ps shop_list = Inr (sts, bs, bt)"
  shows "set sts = (\<Union>s\<in>set shop_list. set (emitted e ps s))"
proof -
  from calculate_Inr [OF assms] obtain raw where
    raw: "shops_loop e ps shop_list [] = Inr raw" and sts: "sts = sort_shop_totals raw" by blast
  from shops_loop_emitted [OF raw] have "raw = concat (map (emitted e ps) shop_list)" by simp
  with sts show ?thesis by (simp add: sort_shop_totals_def)
qed

lemma calculate_available:
  "calculate_shop_totals_for_products e ps shop_list = Inr (sts, bs, bt) \<Longrightarrow> st \<in> set sts \<Longrightarrow>
     0 < available_count st"
  using calculate_set emitted_available by blast

section \<open>Lemmas on the loop body\<close>

lemma new_ProductInShop_Inr:
  assumes "new_ProductInShop e p img pr av = Inr entry"
  shows "price entry = pr"
    and "validate_bool e av = Inr (available entry)"
    and "validate_opt_str e img = Inr (image_ref entry)"
    and "and_then (dict_getitem p ''sku'') (validate_str e) = Inr (sku entry)"
    and "and_then (dict_getitem p ''title'') (validate_str e) = Inr (title entry)"
  using assms by (auto simp: new_ProductInShop_def and_then_eq_Inr)

lemma has_price_True:
  "has_price sd = Inr True \<longleftrightarrow> (\<exists>d pv. sd = PDict d \<and> map_of d ''price'' = Some pv \<and> pv \<noteq> PNone)"
  by (cases sd)
     (auto simp: has_price_def py_get_def dict_get_def and_then_eq_Inr split: option.splits)

lemma has_price_dict:
  "map_of d ''price'' = Some pv \<Longrightarrow> has_price (PDict d) = Inr (pv \<noteq> PNone)"
  by (auto simp: has_price_def py_get_def dict_get_def)

lemma missing_branch_Inr:
  assumes "missing_branch e p acc = Inr acc'"
  shows "\<exists>entry. new_ProductInShop e p PNone None (PBool False) = Inr entry
           \<and> price entry = None \<and> \<not> available entry \<and> image_ref entry = None
           \<and> acc' = acc\<lparr>products_in_shop := products_in_shop acc @ [entry],
                         acc_missing := acc_missing acc + 1\<rparr>"
proof -
  from assms obtain entry where
    en: "new_ProductInShop e p PNone None (PBool False) = Inr entry"
    and acc': "acc' = acc\<lparr>products_in_shop := products_in_shop acc @ [entry],
                         acc_missing := acc_missing acc + 1\<rparr>"
    by (auto simp: missing_branch_def and_then_eq_Inr)
  from new_ProductInShop_Inr [OF en] have "price entry = None" "\<not> available entry" "image_ref entry = None"
    by (simp_all add: validate_bool_def validate_opt_str_def)
  with en acc' show ?thesis by blast
qed

lemma priced_branch_Inr:
  assumes "priced_branch e p (PDict d) acc = Inr acc'" and "map_of d ''price'' = Some pv"
  shows "\<exists>r img entry. py_float e pv = Inr r
           \<and> new_ProductInShop e p img (Some r) (dict_get d ''available'' (PBool True)) = Inr entry
           \<and> acc' = (if truthy (dict_get d ''available'' (PBool True))
                     then acc\<lparr>acc_total := fadd e (acc_total acc) r,
                              products_in_shop := products_in_shop acc @ [entry],
                              acc_available := acc_available acc + 1\<rparr>
                     else acc\<lparr>products_in_shop := products_in_shop acc @ [entry],
                              acc_missing := acc_missing acc + 1\<rparr>)"
proof -
  from assms obtain r img entry where
    "py_float e pv = Inr r"
    "new_ProductInShop e p img (Some r) (dict_get d ''available'' (PBool True)) = Inr entry"
    "acc' = (if truthy (dict_get d ''available'' (PBool True))
                     then acc\<lparr>acc_total := fadd e (acc_total acc) r,
                              products_in_shop := products_in_shop acc @ [entry],
                              acc_available := acc_available acc + 1\<rparr>
                     else acc\<lparr>products_in_shop := products_in_shop acc @ [entry],
                              acc_missing := acc_missing acc + 1\<rparr>)"
    unfolding priced_branch_def py_getitem_def dict_getitem_def py_get_def and_then_eq_Inr
    by auto
  then show ?thesis by blast
qed

lemma priced_branch_float_raises:
  assumes "map_of d ''price'' = Some pv" and "py_float e pv = Inl err"
  shows "priced_branch e p (PDict d) acc = Inl err"
  using assms by (simp add: priced_branch_def py_getitem_def dict_getitem_def)

lemma product_step_priced:
  assumes "shop_offer p s = Inr (PDict d)" and "map_of d ''price'' = Some pv" and "pv \<noteq> PNone"
  shows "product_step e s p acc = priced_branch e p (PDict d) acc"
  using assms by (simp add: product_step_def has_price_dict)

lemma product_step_cases:
  assumes "product_step e s p acc = Inr acc'"
  obtains (missing) "\<not> usable_offer p s" "missing_branch e p acc = Inr acc'"
  | (priced) d pv where "usable_offer p s" "shop_offer p s = Inr (PDict d)"
      "map_of d ''price'' = Some pv" "pv \<noteq> PNone" "priced_branch e p (PDict d) acc = Inr acc'"
proof -
  from assms obtain sd b where sd: "shop_offer p s = Inr sd" and b: "has_price sd = Inr b"
    and br: "(if b then priced_branch e p sd acc else missing_branch e p acc) = Inr acc'"
    by (auto simp: product_step_def and_then_eq_Inr)
  show thesis
  proof (cases b)
    case True
    with b obtain d pv where d: "sd = PDict d" "map_of d ''price'' = Some pv" "pv \<noteq> PNone"
      by (auto simp: has_price_True)
    have "usable_offer p s" using sd b True by (simp add: usable_offer_def)
    with priced sd d br True show thesis by simp
  next
    case False
    have "\<not> usable_offer p s" using sd b False by (simp add: usable_offer_def)
    with missing br False show thesis by simp
  qed
qed

text \<open>What one round of the loop over the products does to the accumulators.\<close>

lemma product_step_effect:
  assumes "product_step e s p acc = Inr acc'"
  shows "\<exists>entry. products_in_shop acc' = products_in_shop acc @ [entry]
           \<and> and_then (dict_getitem p ''sku'') (validate_str e) = Inr (sku entry)
           \<and> and_then (dict_getitem p ''title'') (validate_str e) = Inr (title entry)
           \<and> (\<not> usable_offer p s \<longrightarrow> price entry = None \<and> \<not> available entry)
           \<and> acc_available acc' + acc_missing acc' = acc_available acc + acc_missing acc + 1
           \<and> acc_available acc \<le> acc_available acc'
           \<and> acc_missing acc + (if usable_offer p s then 0 else 1) \<le> acc_missing acc'"
  using assms
proof (cases rule: product_step_cases)
  case missing
  from missing_branch_Inr [OF missing(2)] obtain entry where
    en: "new_ProductInShop e p PNone None (PBool False) = Inr entry"
      "price entry = None" "\<not> available entry"
      "acc' = acc\<lparr>products_in_shop := products_in_shop acc @ [entry], acc_missing := acc_missing acc + 1\<rparr>"
    by blast
  from new_ProductInShop_Inr(4,5) [OF en(1)] en(2,3,4) missing(1) show ?thesis by simp
next
  case (priced d pv)
  from priced_branch_Inr [OF priced(5,3)] obtain r img entry where
    en: "new_ProductInShop e p img (Some r) (dict_get d ''available'' (PBool True)) = Inr entry"
    and acc': "acc' = (if truthy (dict_get d ''available'' (PBool True))
                     then acc\<lparr>acc_total := fadd e (acc_total acc) r,
                              products_in_shop := products_in_shop acc @ [entry],
                              acc_available := acc_available acc + 1\<rparr>
                     else acc\<lparr>products_in_shop := products_in_shop acc @ [entry],
                              acc_missing := acc_missing acc + 1\<rparr>)"
    by blast
  from new_ProductInShop_Inr(4,5) [OF en] acc' priced(1) show ?thesis by simp
qed

lemma products_loop_effect:
  "products_loop e s ps acc = Inr acc' \<Longrightarrow>
     \<exists>entries. products_in_shop acc' = products_in_shop acc @ entries
       \<and> length entries = length ps
       \<and> (\<forall>i<length ps.
             and_then (dict_getitem (ps ! i) ''sku'') (validate_str e) = Inr (sku (entries ! i))
           \<and> and_then (dict_getitem (ps ! i) ''title'') (validate_str e) = Inr (title (entries ! i))
           \<and> (\<not> usable_offer (ps ! i) s \<longrightarrow> price (entries ! i) = None \<and> \<not> available (entries ! i)))
       \<and> acc_available acc' + acc_missing acc' = acc_available acc + acc_missing acc + int (length ps)
       \<and> acc_available acc \<le> acc_available acc'
       \<and> acc_missing acc + int (length (filter (\<lambda>p. \<not> usable_offer p s) ps)) \<le> acc_missing acc'"
proof (induction ps arbitrary: acc)
  case Nil
  then show ?case by simp
next
  case (Cons p ps)
  from Cons.prems obtain acc1 where
    step: "product_step e s p acc = Inr acc1" and rest: "products_loop e s ps acc1 = Inr acc'"
    by (auto split: sum.splits)
  from product_step_effect [OF step] obtain entry where
    en: "products_in_shop acc1 = products_in_shop acc @ [entry]"
      "and_then (dict_getitem p ''sku'') (validate_str e) = Inr (sku entry)"
      "and_then (dict_getitem p ''title'') (validate_str e) = Inr (title entry)"
      "\<not> usable_offer p s \<longrightarrow> price entry = None \<and> \<not> available entry"
      "acc_available acc1 + acc_missing acc1 = acc_available acc + acc_missing acc + 1"
      "acc_available acc \<le> acc_available acc1"
      "acc_missing acc + (if usable_offer p s then 0 else 1) \<le> acc_missing acc1"
    by blast
  from Cons.IH [OF rest] obtain entries where
    es: "products_in_shop acc' = products_in_shop acc1 @ entries"
      "length entries = length ps"
      "\<forall>i<length ps.
             and_then (dict_getitem (ps ! i) ''sku'') (validate_str e) = Inr (sku (entries ! i))
           \<and> and_then (dict_getitem (ps ! i) ''title'') (validate_str e) = Inr (title (entries ! i))
           \<and> (\<not> usable_offer (ps ! i) s \<longrightarrow> price (entries ! i) = None \<and> \<not> available (entries ! i))"
      "acc_available acc' + acc_missing acc' = acc_available acc1 + acc_missing acc1 + int (length ps)"
      "acc_available acc1 \<le> acc_available acc'"
      "acc_missing acc1 + int (length (filter (\<lambda>p. \<not> usable_offer p s) ps)) \<le> acc_missing acc'"
    by blast
  have 1: "products_in_shop acc' = products_in_shop acc @ (entry # entries)"
    using en(1) es(1) by simp
  have 2: "length (entry # entries) = length (p # ps)"
    using es(2) by simp
  have 3: "and_then (dict_getitem ((p # ps) ! i) ''sku'') (validate_str e) = Inr (sku ((entry # entries) ! i))
           \<and> and_then (dict_getitem ((p # ps) ! i) ''title'') (validate_str e) = Inr (title ((entry # entries) ! i))
           \<and> (\<not> usable_offer ((p # ps) ! i) s \<longrightarrow>
                 price ((entry # entries) ! i) = None \<and> \<not> available ((entry # entries) ! i))"
    if "i < length (p # ps)" for i
    using that en(2,3,4) es(3) by (cases i) simp_all
  have 4: "acc_available acc' + acc_missing acc' = acc_available acc + acc_missing acc + int (length (p # ps))"
    using en(5) es(4) by simp
  have 5: "acc_available acc \<le> acc_available acc'"
    using en(6) es(5) by simp
  have 6: "acc_missing acc + int (length (filter (\<lambda>p. \<not> usable_offer p s) (p # ps))) \<le> acc_missing acc'"
    using en(7) es(6) by (simp split: if_splits)
  from 1 2 3 4 5 6 show ?case by blast
qed

section \<open>Lemmas on raising, on the lookup and on the handler\<close>

lemma products_loop_steps:
  "products_loop e s ps acc = Inr acc' \<Longrightarrow> p \<in> set ps \<Longrightarrow> \<exists>a a'. product_step e s p a = Inr a'"
proof (induction ps arbitrary: acc)
  case Nil
  then show ?case by simp
next
  case (Cons q ps)
  from Cons.prems(1) obtain acc1 where
    step: "product_step e s q acc = Inr acc1" and rest: "products_loop e s ps acc1 = Inr acc'"
    by (auto split: sum.splits)
  show ?case
  proof (cases "p = q")
    case True
    with step show ?thesis by blast
  next
    case False
    with Cons.prems(2) have "p \<in> set ps" by simp
    from Cons.IH [OF rest this] show ?thesis .
  qed
qed

lemma calculate_steps:
  assumes "calculate_shop_totals_for_products e ps shop_list = Inr r"
    and "p \<in> set ps" and "s \<in> set shop_list"
  shows "\<exists>a a'. product_step e s p a = Inr a'"
proof -
  obtain sts bs bt where "r = (sts, bs, bt)" by (cases r) auto
  with assms(1) calculate_Inr obtain raw where "shops_loop e ps shop_list [] = Inr raw" by blast
  from shops_loop_products_loop [OF this assms(3)] obtain acc where
    "products_loop e s ps acc_init = Inr acc" by blast
  from products_loop_steps [OF this assms(2)] show ?thesis .
qed

lemma calculate_raises:
  assumes "\<And>a. \<exists>err. product_step e s p a = Inl err" and "p \<in> set ps" and "s \<in> set shop_list"
  shows "\<exists>err. calculate_shop_totals_for_products e ps shop_list = Inl err"
proof (cases "calculate_shop_totals_for_products e ps shop_list")
  case (Inl err)
  then show ?thesis by blast
next
  case (Inr r)
  from calculate_steps [OF Inr assms(2,3)] obtain a a' where "product_step e s p a = Inr a'" by blast
  with assms(1) [of a] show ?thesis by auto
qed


lemma product_step_keys:
  assumes "product_step e s p acc = Inr acc'"
  shows "\<exists>a b. dict_getitem p ''sku'' = Inr a \<and> dict_getitem p ''title'' = Inr b"
  using product_step_effect [OF assms] by (auto simp: and_then_eq_Inr)

lemma product_summaries_returns:
  "(\<forall>p\<in>set ps. \<exists>a b. dict_getitem p ''sku'' = Inr a \<and> dict_getitem p ''title'' = Inr b) \<Longrightarrow>
     \<exists>x. product_summaries ps = Inr x"
  by (induction ps) auto

lemma calculate_summaries:
  assumes "calculate_shop_totals_for_products e ps shop_list = Inr r" and "shop_list \<noteq> []"
  shows "\<exists>x. product_summaries ps = Inr x"
proof -
  from assms(2) obtain s where s: "s \<in> set shop_list" by (cases shop_list) auto
  have "\<exists>a b. dict_getitem p ''sku'' = Inr a \<and> dict_getitem p ''title'' = Inr b" if "p \<in> set ps" for p
    using calculate_steps [OF assms(1) that s] product_step_keys by blast
  then show ?thesis by (intro product_summaries_returns) blast
qed

lemma new_CategoryResult_Inr:
  "new_CategoryResult e cat label shop_list ps = Inr cr \<Longrightarrow>
     calculate_shop_totals_for_products e ps shop_list = Inr (shop_totals cr, best_shop cr, best_total cr)
     \<and> category cr = cat \<and> category_label cr = label"
  by (auto simp: new_CategoryResult_def and_then_eq_Inr)

lemma new_CategoryResult_returns:
  assumes "calculate_shop_totals_for_products e ps shop_list = Inr r" and "shop_list \<noteq> []"
  shows "\<exists>cr. new_CategoryResult e cat label shop_list ps = Inr cr"
proof -
  from calculate_summaries [OF assms] obtain x where "product_summaries ps = Inr x" by blast
  with assms(1) show ?thesis by (cases r) (simp add: new_CategoryResult_def)
qed

section \<open>Lemmas on the order of floats\<close>





section \<open>Lemmas on the sum of a shop\<close>

lemma counted_Some_iff:
  "counted e s p = Some r \<longleftrightarrow>
     (\<exists>d pv. shop_offer p s = Inr (PDict d) \<and> map_of d ''price'' = Some pv \<and> pv \<noteq> PNone
        \<and> truthy (dict_get d ''available'' (PBool True)) \<and> py_float e pv = Inr r)"
  by (auto simp: counted_def split: sum.splits pyval.splits option.splits if_splits)

lemma counted_priced:
  assumes "shop_offer p s = Inr (PDict d)" and "map_of d ''price'' = Some pv" and "pv \<noteq> PNone"
    and "py_float e pv = Inr r"
  shows "counted e s p = (if truthy (dict_get d ''available'' (PBool True)) then Some r else None)"
  using assms by (simp add: counted_def)

lemma counted_not_usable: "\<not> usable_offer p s \<Longrightarrow> counted e s p = None"
  by (auto simp: counted_def usable_offer_def has_price_True split: sum.splits pyval.splits option.splits)

lemma product_step_counted:
  assumes "product_step e s p acc = Inr acc'"
  shows "acc_total acc' = (case counted e s p of None \<Rightarrow> acc_total acc | Some r \<Rightarrow> fadd e (acc_total acc) r)
       \<and> acc_available acc' = acc_available acc + (case counted e s p of None \<Rightarrow> 0 | Some r \<Rightarrow> 1)
       \<and> acc_missing acc' = acc_missing acc + (case counted e s p of None \<Rightarrow> 1 | Some r \<Rightarrow> 0)
       \<and> (\<exists>entry. products_in_shop acc' = products_in_shop acc @ [entry]
            \<and> (\<forall>d pv. shop_offer p s = Inr (PDict d) \<and> map_of d ''price'' = Some pv \<and> pv \<noteq> PNone \<longrightarrow>
                  (\<exists>r. py_float e pv = Inr r \<and> price entry = Some r)
                \<and> validate_bool e (dict_get d ''available'' (PBool True)) = Inr (available entry)))"
  using assms
proof (cases rule: product_step_cases)
  case missing
  from missing_branch_Inr [OF missing(2)] obtain entry where
    acc': "acc' = acc\<lparr>products_in_shop := products_in_shop acc @ [entry], acc_missing := acc_missing acc + 1\<rparr>"
    by blast
  have none: "counted e s p = None" using missing(1) by (rule counted_not_usable)
  have "\<not> (shop_offer p s = Inr (PDict d) \<and> map_of d ''price'' = Some pv \<and> pv \<noteq> PNone)" for d pv
    using missing(1) by (auto simp: usable_offer_def has_price_dict)
  then have vac: "\<forall>d pv. shop_offer p s = Inr (PDict d) \<and> map_of d ''price'' = Some pv \<and> pv \<noteq> PNone \<longrightarrow>
                  (\<exists>r. py_float e pv = Inr r \<and> price entry = Some r)
                \<and> validate_bool e (dict_get d ''available'' (PBool True)) = Inr (available entry)"
    by blast
  have "products_in_shop acc' = products_in_shop acc @ [entry]" using acc' by simp
  with vac have "\<exists>entry. products_in_shop acc' = products_in_shop acc @ [entry]
            \<and> (\<forall>d pv. shop_offer p s = Inr (PDict d) \<and> map_of d ''price'' = Some pv \<and> pv \<noteq> PNone \<longrightarrow>
                  (\<exists>r. py_float e pv = Inr r \<and> price entry = Some r)
                \<and> validate_bool e (dict_get d ''available'' (PBool True)) = Inr (available entry))"
    by blast
  with acc' none show ?thesis by simp
next
  case (priced d pv)
  from priced_branch_Inr [OF priced(5,3)] obtain r img entry where
    r: "py_float e pv = Inr r"
    and en: "new_ProductInShop e p img (Some r) (dict_get d ''available'' (PBool True)) = Inr entry"
    and acc': "acc' = (if truthy (dict_get d ''available'' (PBool True))
                     then acc\<lparr>acc_total := fadd e (acc_total acc) r,
                              products_in_shop := products_in_shop acc @ [entry],
                              acc_available := acc_available acc + 1\<rparr>
                     else acc\<lparr>products_in_shop := products_in_shop acc @ [entry],
                              acc_missing := acc_missing acc + 1\<rparr>)"
    by blast
  note c = counted_priced [OF priced(2,3,4) r]
  from new_ProductInShop_Inr(1,2) [OF en]
  have pe: "price entry = Some r" "validate_bool e (dict_get d ''available'' (PBool True)) = Inr (available entry)"
    by simp_all
  have en': "(\<exists>r. py_float e pv' = Inr r \<and> price entry = Some r)
        \<and> validate_bool e (dict_get d' ''available'' (PBool True)) = Inr (available entry)"
    if "shop_offer p s = Inr (PDict d')" "map_of d' ''price'' = Some pv'" for d' pv'
    using that priced(2,3) r pe by simp
  have app: "products_in_shop acc' = products_in_shop acc @ [entry]"
    using acc' by simp
  show ?thesis
  proof (cases "truthy (dict_get d ''available'' (PBool True))")
    case True
    with acc' c app en' show ?thesis by auto
  next
    case False
    with acc' c app en' show ?thesis by auto
  qed
qed

lemma products_loop_counted:
  "products_loop e s ps acc = Inr acc' \<Longrightarrow>
     acc_total acc' = foldl (fadd e) (acc_total acc) (List.map_filter (counted e s) ps)
   \<and> acc_available acc' = acc_available acc + int (length (filter (\<lambda>p. counted e s p \<noteq> None) ps))
   \<and> acc_missing acc' = acc_missing acc + int (length (filter (\<lambda>p. counted e s p = None) ps))
   \<and> (\<exists>entries. products_in_shop acc' = products_in_shop acc @ entries
         \<and> length entries = length ps
         \<and> (\<forall>i<length ps. \<forall>d pv.
               shop_offer (ps ! i) s = Inr (PDict d) \<and> map_of d ''price'' = Some pv \<and> pv \<noteq> PNone \<longrightarrow>
                 (\<exists>r. py_float e pv = Inr r \<and> price (entries ! i) = Some r)
               \<and> validate_bool e (dict_get d ''available'' (PBool True)) = Inr (available (entries ! i))))"
proof (induction ps arbitrary: acc)
  case Nil
  then show ?case by simp
next
  case (Cons p ps)
  from Cons.prems obtain acc1 where
    step: "product_step e s p acc = Inr acc1" and rest: "products_loop e s ps acc1 = Inr acc'"
    by (auto split: sum.splits)
  from product_step_counted [OF step] obtain entry where
    s1: "acc_total acc1 = (case counted e s p of None \<Rightarrow> acc_total acc | Some r \<Rightarrow> fadd e (acc_total acc) r)"
      "acc_available acc1 = acc_available acc + (case counted e s p of None \<Rightarrow> 0 | Some r \<Rightarrow> 1)"
      "acc_missing acc1 = acc_missing acc + (case counted e s p of None \<Rightarrow> 1 | Some r \<Rightarrow> 0)"
      "products_in_shop acc1 = products_in_shop acc @ [entry]"
      "\<forall>d pv. shop_offer p s = Inr (PDict d) \<and> map_of d ''price'' = Some pv \<and> pv \<noteq> PNone \<longrightarrow>
                  (\<exists>r. py_float e pv = Inr r \<and> price entry = Some r)
                \<and> validate_bool e (dict_get d ''available'' (PBool True)) = Inr (available entry)"
    by blast
  from Cons.IH [OF rest] obtain entries where
    s2: "acc_total acc' = foldl (fadd e) (acc_total acc1) (List.map_filter (counted e s) ps)"
      "acc_available acc' = acc_available acc1 + int (length (filter (\<lambda>p. counted e s p \<noteq> None) ps))"
      "acc_missing acc' = acc_missing acc1 + int (length (filter (\<lambda>p. counted e s p = None) ps))"
      "products_in_shop acc' = products_in_shop acc1 @ entries"
      "length entries = length ps"
      "\<forall>i<length ps. \<forall>d pv.
               shop_offer (ps ! i) s = Inr (PDict d) \<and> map_of d ''price'' = Some pv \<and> pv \<noteq> PNone \<longrightarrow>
                 (\<exists>r. py_float e pv = Inr r \<and> price (entries ! i) = Some r)
               \<and> validate_bool e (dict_get d ''available'' (PBool True)) = Inr (available (entries ! i))"
    by blast
  have 1: "acc_total acc' = foldl (fadd e) (acc_total acc) (List.map_filter (counted e s) (p # ps))"
    using s1(1) s2(1) by (cases "counted e s p") simp_all
  have 2: "acc_available acc' = acc_available acc + int (length (filter (\<lambda>p. counted e s p \<noteq> None) (p # ps)))"
    using s1(2) s2(2) by (cases "counted e s p") simp_all
  have 3: "acc_missing acc' = acc_missing acc + int (length (filter (\<lambda>p. counted e s p = None) (p # ps)))"
    using s1(3) s2(3) by (cases "counted e s p") simp_all
  have 4: "products_in_shop acc' = products_in_shop acc @ (entry # entries)"
    using s1(4) s2(4) by simp
  have 5: "length (entry # entries) = length (p # ps)"
    using s2(5) by simp
  have 6: "(\<exists>r. py_float e pv = Inr r \<and> price ((entry # entries) ! i) = Some r)
               \<and> validate_bool e (dict_get d ''available'' (PBool True)) = Inr (available ((entry # entries) ! i))"
    if "i < length (p # ps)" "shop_offer ((p # ps) ! i) s = Inr (PDict d)" "map_of d ''price'' = Some pv"
      "pv \<noteq> PNone" for i d pv
  proof (cases i)
    case 0
    with that s1(5) show ?thesis by simp
  next
    case (Suc j)
    with that s2(6) show ?thesis by simp
  qed
  from 1 2 3 4 5 6 show ?case by blast
qed

text \<open>The fields of an entry of the returned list, from the offers of its shop.\<close>

lemma calculate_entry:
  assumes "calculate_shop_totals_for_products e ps shop_list = Inr (sts, bs, bt)" and "st \<in> set sts"
  shows "total_price st = round3 e (foldl (fadd e) (Finite 0) (List.map_filter (counted e (shop st)) ps))"
    and "available_count st = int (length (filter (\<lambda>p. counted e (shop st) p \<noteq> None) ps))"
    and "missing_count st = int (length (filter (\<lambda>p. counted e (shop st) p = None) ps))"
    and "\<forall>i<length ps. \<forall>d pv.
           shop_offer (ps ! i) (shop st) = Inr (PDict d) \<and> map_of d ''price'' = Some pv \<and> pv \<noteq> PNone \<longrightarrow>
             (\<exists>r. py_float e pv = Inr r \<and> price (products st ! i) = Some r)
           \<and> validate_bool e (dict_get d ''available'' (PBool True)) = Inr (available (products st ! i))"
proof -
  from assms calculate_set obtain s where "st \<in> set (emitted e ps s)" by blast
  from emitted_cases [OF this] obtain acc where
    acc: "products_loop e s ps acc_init = Inr acc" and st: "st = new_ShopTotal e s acc" by blast
  have sh: "shop st = s" by (simp add: st new_ShopTotal_def)
  have f: "total_price st = round3 e (acc_total acc)" "available_count st = acc_available acc"
    "missing_count st = acc_missing acc" "products st = products_in_shop acc"
    by (simp_all add: st new_ShopTotal_def)
  from products_loop_counted [OF acc] obtain entries where
    c: "acc_total acc = foldl (fadd e) (acc_total acc_init) (List.map_filter (counted e s) ps)"
      "acc_available acc = acc_available acc_init + int (length (filter (\<lambda>p. counted e s p \<noteq> None) ps))"
      "acc_missing acc = acc_missing acc_init + int (length (filter (\<lambda>p. counted e s p = None) ps))"
      "products_in_shop acc = products_in_shop acc_init @ entries"
      "\<forall>i<length ps. \<forall>d pv.
           shop_offer (ps ! i) s = Inr (PDict d) \<and> map_of d ''price'' = Some pv \<and> pv \<noteq> PNone \<longrightarrow>
             (\<exists>r. py_float e pv = Inr r \<and> price (entries ! i) = Some r)
           \<and> validate_bool e (dict_get d ''available'' (PBool True)) = Inr (available (entries ! i))"
    by blast
  have i: "acc_total acc_init = Finite 0" "acc_available acc_init = 0" "acc_missing acc_init = 0"
    "products_in_shop acc_init = []"
    by (simp_all add: acc_init_def)
  show "total_price st = round3 e (foldl (fadd e) (Finite 0) (List.map_filter (counted e (shop st)) ps))"
    unfolding f sh c(1) i ..
  show "available_count st = int (length (filter (\<lambda>p. counted e (shop st) p \<noteq> None) ps))"
    unfolding f sh c(2) i by simp
  show "missing_count st = int (length (filter (\<lambda>p. counted e (shop st) p = None) ps))"
    unfolding f sh c(3) i by simp
  have "products st = entries" unfolding f c(4) i by simp
  with c(5) show "\<forall>i<length ps. \<forall>d pv.
           shop_offer (ps ! i) (shop st) = Inr (PDict d) \<and> map_of d ''price'' = Some pv \<and> pv \<noteq> PNone \<longrightarrow>
             (\<exists>r. py_float e pv = Inr r \<and> price (products st ! i) = Some r)
           \<and> validate_bool e (dict_get d ''available'' (PBool True)) = Inr (available (products st ! i))"
    unfolding sh by simp
qed

text \<open>A shop of the list with a counted offer has an entry in the returned list.\<close>

lemma calculate_emits:
  assumes "calculate_shop_totals_for_products e ps shop_list = Inr (sts, bs, bt)"
    and "s \<in> set shop_list" and "p \<in> set ps" and "counted e s p \<noteq> None"
  shows "\<exists>st\<in>set sts. shop st = s"
proof -
  from calculate_Inr [OF assms(1)] obtain raw where "shops_loop e ps shop_list [] = Inr raw" by blast
  from shops_loop_products_loop [OF this assms(2)] obtain acc where
    acc: "products_loop e s ps acc_init = Inr acc" by blast
  from assms(3,4) have "p \<in> set (filter (\<lambda>p. counted e s p \<noteq> None) ps)" by simp
  then have "0 < length (filter (\<lambda>p. counted e s p \<noteq> None) ps)"
    by (metis length_pos_if_in_set)
  with products_loop_counted [OF acc] have "0 < acc_available acc"
    by (simp add: acc_init_def)
  with acc have "new_ShopTotal e s acc \<in> set (emitted e ps s)" by (simp add: emitted_def)
  with calculate_set [OF assms(1)] assms(2) have "new_ShopTotal e s acc \<in> set sts" by blast
  then show ?thesis by (auto simp: new_ShopTotal_def intro!: bexI [of _ "new_ShopTotal e s acc"])
qed

lemma map_filter_split:
  assumes "i < length xs" and "f (xs ! i) = Some y"
  shows "List.map_filter f xs = List.map_filter f (take i xs) @ y # List.map_filter f (drop (Suc i) xs)"
proof -
  have "List.map_filter f (as @ bs) = List.map_filter f as @ List.map_filter f bs" for as bs
    by (simp add: List.map_filter_def)
  moreover have "xs = take i xs @ xs ! i # drop (Suc i) xs"
    using assms(1) by (rule id_take_nth_drop)
  ultimately have "List.map_filter f xs
      = List.map_filter f (take i xs) @ List.map_filter f (xs ! i # drop (Suc i) xs)"
    by metis
  with assms(2) show ?thesis by simp
qed

lemma length_map_filter: "length (List.map_filter f xs) = length (filter (\<lambda>x. f x \<noteq> None) xs)"
  by (simp add: List.map_filter_def)

section \<open>Runs of the examples\<close>

lemmas model_defs =
  calculate_shop_totals_for_products_def and_then_def
  product_step_def shop_offer_def find_shop_data_def py_get_def dict_get_def has_price_def priced_branch_def
  missing_branch_def py_getitem_def dict_getitem_def
  new_ProductInShop_def validate_str_def validate_opt_str_def validate_bool_def acc_init_def new_ShopTotal_def
  sort_shop_totals_def sort_key_of_def select_best_def replace_def
  list_sort_def binary_insert_def bisect.simps key_lt_def feq_def

lemmas exact_defs = exact_env_def round_half_even_def

lemma run_example_a:
  "calculate_shop_totals_for_products exact_env example_a [''X'', ''Y'']
     = Inr (example_a_result, Some ''Y'', Some (Finite 8))"
  by (simp add: example_a_def example_a_result_def model_defs exact_defs)

lemma run_example_b:
  "calculate_shop_totals_for_products exact_env example_b [''X'', ''Y'', ''Z'']
     = Inr (example_b_result, Some ''Y'', Some (Finite 5))"
  by (simp add: example_b_def example_b_result_def model_defs exact_defs)

lemma run_example_b_Z:
  "products_loop exact_env ''Z'' example_b acc_init
     = Inr \<lparr>acc_total = Finite 0,
            products_in_shop =
              [\<lparr>sku = ''p1'', title = ''soap'', image_ref = None, price = None, available = False\<rparr>,
               \<lparr>sku = ''p2'', title = ''balm'', image_ref = None, price = None, available = False\<rparr>],
            acc_available = 0, acc_missing = 2\<rparr>"
  by (simp add: example_b_def model_defs exact_defs)

lemma run_negative:
  "shop_offer example_negative ''X'' = Inr (PDict [(''price'', PFloat (Finite (- 5))), (''available'', PBool True)])"
  "product_step exact_env ''X'' example_negative acc_init
     = Inr \<lparr>acc_total = Finite (- 5),
            products_in_shop = [\<lparr>sku = ''p1'', title = ''soap'', image_ref = None, price = Some (Finite (- 5)), available = True\<rparr>],
            acc_available = 1, acc_missing = 0\<rparr>"
  by (simp_all add: example_negative_def model_defs exact_defs)

lemma run_non_numeric:
  "shop_offer example_non_numeric ''X'' = Inr (PDict [(''price'', PList []), (''available'', PBool True)])"
  by (simp_all add: example_non_numeric_def model_defs exact_defs)

lemma run_retail:
  "calculate_best_shop exact_env [] example_retail
     = Inr \<lparr>para_result = None, retail_result = Some example_retail_result\<rparr>"
  by (simp add: calculate_best_shop_def new_CategoryResult_def example_retail_def example_retail_result_def
       RETAIL_SHOPS_def model_defs exact_defs)

lemma run_unstocked:
  "calculate_best_shop exact_env example_unstocked []
     = Inr \<lparr>para_result = Some example_unstocked_result, retail_result = None\<rparr>"
  by (simp add: calculate_best_shop_def new_CategoryResult_def example_unstocked_def example_unstocked_result_def
       PARA_SHOPS_def model_defs exact_defs)

section \<open>The claims\<close>

text \<open>
  C1. Whenever the ranking returns, the best shop is the first entry of the sorted list
  whose missing count is 0; when no entry has missing count 0 it is the first entry of
  the sorted list; and when the list is empty, best shop and best total are both \<open>None\<close>.
\<close>

theorem best_shop_selection:
  assumes "calculate_shop_totals_for_products e ps shop_list = Inr (sts, bs, bt)"
  shows "(\<forall>i<length sts. missing_count (sts ! i) = 0 \<and> (\<forall>j<i. missing_count (sts ! j) \<noteq> 0) \<longrightarrow>
            bs = Some (shop (sts ! i)) \<and> bt = Some (total_price (sts ! i)))
       \<and> ((\<forall>st\<in>set sts. missing_count st \<noteq> 0) \<and> sts \<noteq> [] \<longrightarrow>
            bs = Some (shop (sts ! 0)) \<and> bt = Some (total_price (sts ! 0)))
       \<and> (sts = [] \<longrightarrow> bs = None \<and> bt = None)"
proof -
  from calculate_Inr [OF assms] have sel: "(bs, bt) = select_best sts" by blast
  have av: "\<forall>st\<in>set sts. 0 < available_count st"
    using calculate_available [OF assms] by blast
  have eq: "find (\<lambda>st. missing_count st = 0 \<and> available_count st > 0) sts = find (\<lambda>st. missing_count st = 0) sts"
    using av by (intro find_cong) auto
  have sel': "(bs, bt) = (case find (\<lambda>st. missing_count st = 0) sts of
        Some st \<Rightarrow> (Some (shop st), Some (total_price st))
      | None \<Rightarrow> (case sts of [] \<Rightarrow> (None, None) | st # _ \<Rightarrow> (Some (shop st), Some (total_price st))))"
    using sel unfolding select_best_def eq .
  have a: "bs = Some (shop (sts ! i)) \<and> bt = Some (total_price (sts ! i))"
    if "i < length sts" "missing_count (sts ! i) = 0" "\<forall>j<i. missing_count (sts ! j) \<noteq> 0" for i
  proof -
    have "find (\<lambda>st. missing_count st = 0) sts = Some (sts ! i)"
      using that by (auto simp: find_Some_iff)
    with sel' show ?thesis by simp
  qed
  have b: "bs = Some (shop (sts ! 0)) \<and> bt = Some (total_price (sts ! 0))"
    if "\<forall>st\<in>set sts. missing_count st \<noteq> 0" "sts \<noteq> []"
  proof -
    have "find (\<lambda>st. missing_count st = 0) sts = None"
      using that by (auto simp: find_None_iff)
    with sel' that show ?thesis by (cases sts) auto
  qed
  have c: "bs = None \<and> bt = None" if "sts = []"
    using sel' that by simp
  from a b c show ?thesis by blast
qed

theorem best_shop_selection_witness:
  "(calculate_shop_totals_for_products exact_env example_a [''X'', ''Y'']
      = Inr (example_a_result, Some ''Y'', Some (Finite 8))
    \<and> missing_count (example_a_result ! 0) = 0
    \<and> Some ''Y'' = Some (shop (example_a_result ! 0))
    \<and> Some (Finite 8) = Some (total_price (example_a_result ! 0)))
   \<and> (calculate_shop_totals_for_products exact_env example_b [''X'', ''Y'', ''Z'']
      = Inr (example_b_result, Some ''Y'', Some (Finite 5))
    \<and> list_all (\<lambda>st. missing_count st \<noteq> 0) example_b_result \<and> example_b_result \<noteq> []
    \<and> Some ''Y'' = Some (shop (example_b_result ! 0))
    \<and> Some (Finite 5) = Some (total_price (example_b_result ! 0)))"
proof -
  have m: "missing_count (example_a_result ! 0) = 0"
    by (simp add: example_a_result_def)
  have n: "(\<forall>st\<in>set example_b_result. missing_count st \<noteq> 0) \<and> example_b_result \<noteq> []"
    by (simp add: example_b_result_def)
  from best_shop_selection [OF run_example_a] m
  have a: "Some ''Y'' = Some (shop (example_a_result ! 0)) \<and> Some (Finite 8) = Some (total_price (example_a_result ! 0))"
    by (simp add: example_a_result_def)
  from best_shop_selection [OF run_example_b] n
  have b: "Some ''Y'' = Some (shop (example_b_result ! 0)) \<and> Some (Finite 5) = Some (total_price (example_b_result ! 0))"
    by blast
  from n have n': "list_all (\<lambda>st. missing_count st \<noteq> 0) example_b_result \<and> example_b_result \<noteq> []"
    by (simp add: list_all_iff)
  from run_example_a run_example_b m n' a b show ?thesis by blast
qed




text \<open>
  C3. Every entry of the returned list has an available count of at least 1; a shop whose
  loop over the products ends with an available count of 0 has no entry in the list; and
  an empty product list gives an empty list and no best shop.
\<close>

theorem no_shop_without_available_product:
  "(calculate_shop_totals_for_products e ps shop_list = Inr (sts, bs, bt) \<longrightarrow>
      (\<forall>st\<in>set sts. 1 \<le> available_count st)
    \<and> (\<forall>s acc. products_loop e s ps acc_init = Inr acc \<and> acc_available acc = 0 \<longrightarrow>
          s \<notin> shop ` set sts))
   \<and> calculate_shop_totals_for_products e [] shop_list = Inr ([], None, None)"
proof -
  have a: "1 \<le> available_count st"
    if "calculate_shop_totals_for_products e ps shop_list = Inr (sts, bs, bt)" "st \<in> set sts" for st
    using calculate_available [OF that] by simp
  have b: "s \<notin> shop ` set sts"
    if c: "calculate_shop_totals_for_products e ps shop_list = Inr (sts, bs, bt)"
      and l: "products_loop e s ps acc_init = Inr acc" "acc_available acc = 0" for s acc
  proof
    assume "s \<in> shop ` set sts"
    then obtain st where st: "st \<in> set sts" "shop st = s" by auto
    from st(1) calculate_set [OF c] obtain s' where "st \<in> set (emitted e ps s')" by auto
    with st(2) have "st \<in> set (emitted e ps s)" using emitted_shop by blast
    with l show False by (simp add: emitted_def)
  qed
  have "shops_loop e [] shop_list [] = Inr []"
    by (induction shop_list) (simp_all add: acc_init_def)
  then have c: "calculate_shop_totals_for_products e [] shop_list = Inr ([], None, None)"
    by (simp add: calculate_shop_totals_for_products_def sort_shop_totals_def select_best_def)
  from a b c show ?thesis by blast
qed

theorem no_shop_without_available_product_witness:
  "calculate_shop_totals_for_products exact_env example_b [''X'', ''Y'', ''Z'']
      = Inr (example_b_result, Some ''Y'', Some (Finite 5))
   \<and> list_all (\<lambda>st. 1 \<le> available_count st) example_b_result
   \<and> (\<exists>acc. products_loop exact_env ''Z'' example_b acc_init = Inr acc \<and> acc_available acc = 0)
   \<and> ''Z'' \<notin> shop ` set example_b_result
   \<and> calculate_shop_totals_for_products exact_env [] [''X'', ''Y'', ''Z''] = Inr ([], None, None)"
proof -
  note t = no_shop_without_available_product
    [of exact_env example_b "[''X'', ''Y'', ''Z'']" example_b_result "Some ''Y''" "Some (Finite 5)"]
  from t run_example_b have "\<forall>st\<in>set example_b_result. 1 \<le> available_count st" by blast
  then have 1: "list_all (\<lambda>st. 1 \<le> available_count st) example_b_result"
    by (simp add: list_all_iff)
  have 2: "\<exists>acc. products_loop exact_env ''Z'' example_b acc_init = Inr acc \<and> acc_available acc = 0"
    using run_example_b_Z by simp
  from t run_example_b 2 have 3: "''Z'' \<notin> shop ` set example_b_result" by blast
  from no_shop_without_available_product [of exact_env "[]" "[''X'', ''Y'', ''Z'']"]
  have 4: "calculate_shop_totals_for_products exact_env [] [''X'', ''Y'', ''Z''] = Inr ([], None, None)"
    by blast
  from run_example_b 1 2 3 4 show ?thesis by blast
qed

text \<open>
  C4, as the code has it. Take an offer that matches the shop and has a price other than
  \<open>None\<close>. The price goes through \<^verbatim>\<open>float()\<close> and is not checked any further. When
  the conversion raises (a list, a dictionary, a string that is no number), the loop body
  raises the same exception and the ranking of any bag holding the product, for any shop
  list holding the shop, raises. When the conversion returns a number, negative or not,
  the presentation record carries that number, and if the offer counts as available the
  number is added to the total and the available count goes up by one, the missing count
  staying as it is.
\<close>

theorem price_is_converted_not_checked:
  assumes "shop_offer p s = Inr (PDict d)" and "map_of d ''price'' = Some pv" and "pv \<noteq> PNone"
  shows "(\<forall>err. py_float e pv = Inl err \<longrightarrow>
            product_step e s p acc = Inl err
          \<and> (p \<in> set ps \<and> s \<in> set shop_list \<longrightarrow>
               (\<exists>err'. calculate_shop_totals_for_products e ps shop_list = Inl err')))
       \<and> (\<forall>r acc'. py_float e pv = Inr r \<and> product_step e s p acc = Inr acc' \<longrightarrow>
            (\<exists>entry. products_in_shop acc' = products_in_shop acc @ [entry] \<and> price entry = Some r)
          \<and> (truthy (dict_get d ''available'' (PBool True)) \<longrightarrow>
               acc_total acc' = fadd e (acc_total acc) r
             \<and> acc_available acc' = acc_available acc + 1
             \<and> acc_missing acc' = acc_missing acc))"
proof -
  have raise: "product_step e s p a = Inl err" if "py_float e pv = Inl err" for err a
    using product_step_priced [OF assms] priced_branch_float_raises [OF assms(2) that] by simp
  have a: "product_step e s p acc = Inl err
          \<and> (p \<in> set ps \<and> s \<in> set shop_list \<longrightarrow>
               (\<exists>err'. calculate_shop_totals_for_products e ps shop_list = Inl err'))"
    if f: "py_float e pv = Inl err" for err
  proof -
    have "\<exists>err'. calculate_shop_totals_for_products e ps shop_list = Inl err'"
      if "p \<in> set ps" "s \<in> set shop_list"
      using calculate_raises [of e s p ps shop_list] raise [OF f] that by blast
    with raise [OF f] show ?thesis by blast
  qed
  have b: "(\<exists>entry. products_in_shop acc' = products_in_shop acc @ [entry] \<and> price entry = Some r)
          \<and> (truthy (dict_get d ''available'' (PBool True)) \<longrightarrow>
               acc_total acc' = fadd e (acc_total acc) r
             \<and> acc_available acc' = acc_available acc + 1
             \<and> acc_missing acc' = acc_missing acc)"
    if r: "py_float e pv = Inr r" and st: "product_step e s p acc = Inr acc'" for r acc'
  proof -
    from st product_step_priced [OF assms]
    have "priced_branch e p (PDict d) acc = Inr acc'" by simp
    from priced_branch_Inr [OF this assms(2)] r obtain img entry where
      en: "new_ProductInShop e p img (Some r) (dict_get d ''available'' (PBool True)) = Inr entry"
      and acc': "acc' = (if truthy (dict_get d ''available'' (PBool True))
                     then acc\<lparr>acc_total := fadd e (acc_total acc) r,
                              products_in_shop := products_in_shop acc @ [entry],
                              acc_available := acc_available acc + 1\<rparr>
                     else acc\<lparr>products_in_shop := products_in_shop acc @ [entry],
                              acc_missing := acc_missing acc + 1\<rparr>)"
      by auto
    from new_ProductInShop_Inr(1) [OF en] acc' show ?thesis by simp
  qed
  from a b show ?thesis by blast
qed

theorem price_is_converted_not_checked_witness:
  "(shop_offer example_negative ''X'' = Inr (PDict [(''price'', PFloat (Finite (- 5))), (''available'', PBool True)])
    \<and> py_float exact_env (PFloat (Finite (- 5))) = Inr (Finite (- 5))
    \<and> product_step exact_env ''X'' example_negative acc_init
        = Inr \<lparr>acc_total = Finite (- 5),
               products_in_shop = [\<lparr>sku = ''p1'', title = ''soap'', image_ref = None, price = Some (Finite (- 5)), available = True\<rparr>],
               acc_available = 1, acc_missing = 0\<rparr>
    \<and> Finite (- 5) = fadd exact_env (acc_total acc_init) (Finite (- 5))
    \<and> 1 = acc_available acc_init + 1)
   \<and> (shop_offer example_non_numeric ''X'' = Inr (PDict [(''price'', PList []), (''available'', PBool True)])
    \<and> py_float exact_env (PList []) = Inl TypeError
    \<and> product_step exact_env ''X'' example_non_numeric acc_init = Inl TypeError
    \<and> (\<exists>err. calculate_shop_totals_for_products exact_env [example_non_numeric] [''X''] = Inl err))"
proof -
  note neg = price_is_converted_not_checked
    [of example_negative "''X''" "[(''price'', PFloat (Finite (- 5))), (''available'', PBool True)]" "PFloat (Finite (- 5))"
        exact_env acc_init "[example_negative]" "[''X'']", OF run_negative(1)]
  have f: "py_float exact_env (PFloat (Finite (- 5))) = Inr (Finite (- 5))" by simp
  from neg f run_negative(2)
  have a: "Finite (- 5) = fadd exact_env (acc_total acc_init) (Finite (- 5)) \<and> 1 = acc_available acc_init + 1"
    by (simp add: dict_get_def)
  note bad = price_is_converted_not_checked
    [of example_non_numeric "''X''" "[(''price'', PList []), (''available'', PBool True)]" "PList []"
        exact_env acc_init "[example_non_numeric]" "[''X'']", OF run_non_numeric(1)]
  have g: "py_float exact_env (PList []) = Inl TypeError" by simp
  from bad g
  have b: "product_step exact_env ''X'' example_non_numeric acc_init = Inl TypeError
    \<and> (\<exists>err. calculate_shop_totals_for_products exact_env [example_non_numeric] [''X''] = Inl err)"
    by simp
  from run_negative run_non_numeric f g a b show ?thesis by blast
qed

text \<open>
  C4 as stated fails: a price of \<open>-5\<close> is added to the total and the product is counted
  available, and a price that is a list makes the ranking raise \<open>TypeError\<close>.
\<close>

theorem negative_or_non_numeric_price_counterexample:
  "calculate_shop_totals_for_products exact_env [example_negative] [''X'']
     = Inr ([\<lparr>shop = ''X'', total_price = Finite (- 5),
              products = [\<lparr>sku = ''p1'', title = ''soap'', image_ref = None, price = Some (Finite (- 5)), available = True\<rparr>],
              available_count = 1, missing_count = 0\<rparr>],
            Some ''X'', Some (Finite (- 5)))
   \<and> calculate_shop_totals_for_products exact_env [example_non_numeric] [''X''] = Inl TypeError"
  by (simp add: example_negative_def example_non_numeric_def model_defs exact_defs)




text \<open>
  C6, as the code has it. Take an entry of the returned list and an offer that matches the
  entry's shop and has a price other than \<open>None\<close>. The presentation record carries the
  converted price and the flag as pydantic validates it. The offer counts, with its price
  in the total, exactly when its stored flag (\<open>True\<close> when it has none) is truthy; the
  total is the rounded sum of the prices that count, the available count is the number of
  products that count and the missing count the number of those that do not. So with
  \<open>available = False\<close> the product is in the missing count, its price is not in the
  total, and the record keeps the price and \<open>available = False\<close>; with
  \<open>available = True\<close> the product counts and the record says so; and a price is added
  only for an offer whose stored flag is truthy, hence not \<open>False\<close>. Every shop of the
  list at which some product counts has an entry.
\<close>

theorem stored_flag_decides_by_truth_value:
  assumes "calculate_shop_totals_for_products e ps shop_list = Inr (sts, bs, bt)" and "st \<in> set sts"
  shows "total_price st = round3 e (foldl (fadd e) (Finite 0) (List.map_filter (counted e (shop st)) ps))
       \<and> available_count st = int (length (filter (\<lambda>p. counted e (shop st) p \<noteq> None) ps))
       \<and> missing_count st = int (length (filter (\<lambda>p. counted e (shop st) p = None) ps))
       \<and> (\<forall>i<length ps. \<forall>d pv.
             shop_offer (ps ! i) (shop st) = Inr (PDict d) \<and> map_of d ''price'' = Some pv \<and> pv \<noteq> PNone \<longrightarrow>
               (\<exists>r. py_float e pv = Inr r \<and> price (products st ! i) = Some r
                  \<and> counted e (shop st) (ps ! i)
                      = (if truthy (dict_get d ''available'' (PBool True)) then Some r else None))
             \<and> validate_bool e (dict_get d ''available'' (PBool True)) = Inr (available (products st ! i))
             \<and> (map_of d ''available'' = Some (PBool False) \<longrightarrow>
                  counted e (shop st) (ps ! i) = None \<and> \<not> available (products st ! i))
             \<and> (map_of d ''available'' = Some (PBool True) \<longrightarrow>
                  counted e (shop st) (ps ! i) \<noteq> None \<and> available (products st ! i)))
       \<and> (\<forall>p r. counted e (shop st) p = Some r \<longrightarrow>
             (\<exists>d pv. shop_offer p (shop st) = Inr (PDict d) \<and> map_of d ''price'' = Some pv \<and> pv \<noteq> PNone
                \<and> py_float e pv = Inr r \<and> truthy (dict_get d ''available'' (PBool True))
                \<and> map_of d ''available'' \<noteq> Some (PBool False)))
       \<and> (\<forall>s\<in>set shop_list. (\<exists>p\<in>set ps. counted e s p \<noteq> None) \<longrightarrow> (\<exists>st'\<in>set sts. shop st' = s))"
proof -
  note en = calculate_entry [OF assms]
  have ex: "\<exists>st'\<in>set sts. shop st' = s" if "s \<in> set shop_list" "\<exists>p\<in>set ps. counted e s p \<noteq> None" for s
    using that calculate_emits [OF assms(1)] by blast
  have d: "(\<exists>r. py_float e pv = Inr r \<and> price (products st ! i) = Some r
                  \<and> counted e (shop st) (ps ! i)
                      = (if truthy (dict_get d ''available'' (PBool True)) then Some r else None))
             \<and> validate_bool e (dict_get d ''available'' (PBool True)) = Inr (available (products st ! i))
             \<and> (map_of d ''available'' = Some (PBool False) \<longrightarrow>
                  counted e (shop st) (ps ! i) = None \<and> \<not> available (products st ! i))
             \<and> (map_of d ''available'' = Some (PBool True) \<longrightarrow>
                  counted e (shop st) (ps ! i) \<noteq> None \<and> available (products st ! i))"
    if i: "i < length ps"
      and o: "shop_offer (ps ! i) (shop st) = Inr (PDict d)" "map_of d ''price'' = Some pv" "pv \<noteq> PNone"
    for i d pv
  proof -
    from en(4) i o obtain r where
      r: "py_float e pv = Inr r" "price (products st ! i) = Some r"
      and v: "validate_bool e (dict_get d ''available'' (PBool True)) = Inr (available (products st ! i))"
      by blast
    note c = counted_priced [OF o r(1)]
    have f: "counted e (shop st) (ps ! i) = None \<and> \<not> available (products st ! i)"
      if "map_of d ''available'' = Some (PBool False)"
      using that c v by (simp add: dict_get_def validate_bool_def)
    have t: "counted e (shop st) (ps ! i) \<noteq> None \<and> available (products st ! i)"
      if "map_of d ''available'' = Some (PBool True)"
      using that c v by (simp add: dict_get_def validate_bool_def)
    from r c v f t show ?thesis by blast
  qed
  have only: "\<exists>d pv. shop_offer p (shop st) = Inr (PDict d) \<and> map_of d ''price'' = Some pv \<and> pv \<noteq> PNone
                \<and> py_float e pv = Inr r \<and> truthy (dict_get d ''available'' (PBool True))
                \<and> map_of d ''available'' \<noteq> Some (PBool False)"
    if "counted e (shop st) p = Some r" for p r
  proof -
    from that obtain d pv where
      o: "shop_offer p (shop st) = Inr (PDict d)" "map_of d ''price'' = Some pv" "pv \<noteq> PNone"
        "truthy (dict_get d ''available'' (PBool True))" "py_float e pv = Inr r"
      unfolding counted_Some_iff by blast
    from o(4) have "map_of d ''available'' \<noteq> Some (PBool False)"
      by (auto simp: dict_get_def)
    with o show ?thesis by blast
  qed
  from en(1,2,3) d only ex show ?thesis by blast
qed

theorem stored_flag_decides_by_truth_value_witness:
  "calculate_shop_totals_for_products exact_env example_mixed [''X'']
      = Inr ([example_mixed_entry], Some ''X'', Some (Finite 10))
   \<and> example_mixed_entry \<in> set [example_mixed_entry]
   \<and> shop_offer (example_mixed ! 1) (shop example_mixed_entry)
       = Inr (PDict [(''price'', PInt 7), (''available'', PBool False)])
   \<and> py_float exact_env (PInt 7) = Inr (Finite 7)
   \<and> price (products example_mixed_entry ! 1) = Some (Finite 7)
   \<and> \<not> available (products example_mixed_entry ! 1)
   \<and> counted exact_env (shop example_mixed_entry) (example_mixed ! 1) = None
   \<and> total_price example_mixed_entry
       = round3 exact_env (foldl (fadd exact_env) (Finite 0) [Finite 10])
   \<and> missing_count example_mixed_entry = 1"
proof -
  have run: "calculate_shop_totals_for_products exact_env example_mixed [''X'']
      = Inr ([example_mixed_entry], Some ''X'', Some (Finite 10))"
    by (simp add: example_mixed_def example_mixed_entry_def model_defs exact_defs)
  have m: "example_mixed_entry \<in> set [example_mixed_entry]" by simp
  have o: "shop_offer (example_mixed ! 1) (shop example_mixed_entry)
       = Inr (PDict [(''price'', PInt 7), (''available'', PBool False)])"
    by (simp add: example_mixed_def example_mixed_entry_def model_defs)
  have i: "1 < length example_mixed" by (simp add: example_mixed_def)
  have f: "py_float exact_env (PInt 7) = Inr (Finite 7)" by (simp add: exact_env_def)
  note t = stored_flag_decides_by_truth_value [OF run m]
  have p: "map_of [(''price'', PInt 7), (''available'', PBool False)] ''price'' = Some (PInt 7)"
    "PInt 7 \<noteq> PNone"
    "map_of [(''price'', PInt 7), (''available'', PBool False)] ''available'' = Some (PBool False)"
    by simp_all
  from t i o p obtain r where
    r: "py_float exact_env (PInt 7) = Inr r" "price (products example_mixed_entry ! 1) = Some r"
    and na: "counted exact_env (shop example_mixed_entry) (example_mixed ! 1) = None"
      "\<not> available (products example_mixed_entry ! 1)"
    by blast
  from r f na have a: "price (products example_mixed_entry ! 1) = Some (Finite 7)
      \<and> \<not> available (products example_mixed_entry ! 1)
      \<and> counted exact_env (shop example_mixed_entry) (example_mixed ! 1) = None"
    by simp
  have cs: "List.map_filter (counted exact_env (shop example_mixed_entry)) example_mixed = [Finite 10]"
    by (simp add: example_mixed_def example_mixed_entry_def counted_def
          model_defs exact_defs)
  from t cs have b: "total_price example_mixed_entry
       = round3 exact_env (foldl (fadd exact_env) (Finite 0) [Finite 10])"
    by simp
  have ms: "filter (\<lambda>p. counted exact_env (shop example_mixed_entry) p = None) example_mixed
      = [example_mixed ! 1]"
    by (simp add: example_mixed_def example_mixed_entry_def counted_def model_defs exact_defs)
  from t ms have c: "missing_count example_mixed_entry = 1" by simp
  from run m o f a b c show ?thesis by blast
qed

text \<open>
  C6 as stated fails on a stored flag that is truthy and validates to \<open>False\<close>: with
  \<open>available\<close> stored as the string \<open>false\<close>, the record has \<open>available = False\<close>, yet
  the price is in the total and the product is in the available count.
\<close>

theorem string_flag_counterexample:
  "calculate_shop_totals_for_products exact_env example_flag_string [''X'']
      = Inr ([\<lparr>shop = ''X'', total_price = Finite 3,
               products = [\<lparr>sku = ''p1'', title = ''soap'', image_ref = None,
                            price = Some (Finite 3), available = False\<rparr>],
               available_count = 1, missing_count = 0\<rparr>],
             Some ''X'', Some (Finite 3))"
  by (simp add: example_flag_string_def model_defs exact_defs lax_bool_def to_lower_def)



text \<open>
  C8. In every response of the handler a category's result is absent exactly when the
  category's product list is empty; a result that is present holds what the ranking of the
  category's products returned, which may be an empty list of shop totals. The handler
  returns a response whenever the ranking returns for each category that has products.
\<close>

theorem category_result_absent_iff_no_products:
  "(calculate_best_shop e para_products retail_products = Inr resp \<longrightarrow>
      (para_result resp = None \<longleftrightarrow> para_products = [])
    \<and> (retail_result resp = None \<longleftrightarrow> retail_products = [])
    \<and> (\<forall>cr. para_result resp = Some cr \<longrightarrow>
          calculate_shop_totals_for_products e para_products PARA_SHOPS
            = Inr (shop_totals cr, best_shop cr, best_total cr))
    \<and> (\<forall>cr. retail_result resp = Some cr \<longrightarrow>
          calculate_shop_totals_for_products e retail_products RETAIL_SHOPS
            = Inr (shop_totals cr, best_shop cr, best_total cr)))
   \<and> ((para_products = [] \<or> (\<exists>r. calculate_shop_totals_for_products e para_products PARA_SHOPS = Inr r))
      \<and> (retail_products = [] \<or> (\<exists>r. calculate_shop_totals_for_products e retail_products RETAIL_SHOPS = Inr r))
      \<longrightarrow> (\<exists>resp'. calculate_best_shop e para_products retail_products = Inr resp'))"
proof -
  have a: "(para_result resp = None \<longleftrightarrow> para_products = [])
    \<and> (retail_result resp = None \<longleftrightarrow> retail_products = [])
    \<and> (\<forall>cr. para_result resp = Some cr \<longrightarrow>
          calculate_shop_totals_for_products e para_products PARA_SHOPS
            = Inr (shop_totals cr, best_shop cr, best_total cr))
    \<and> (\<forall>cr. retail_result resp = Some cr \<longrightarrow>
          calculate_shop_totals_for_products e retail_products RETAIL_SHOPS
            = Inr (shop_totals cr, best_shop cr, best_total cr))"
    if r: "calculate_best_shop e para_products retail_products = Inr resp"
  proof -
    from r obtain para retail where
      p: "(if para_products \<noteq> []
           then and_then (new_CategoryResult e ''para'' ''Parapharmacie'' PARA_SHOPS para_products)
                  (\<lambda>r. Inr (Some r))
           else Inr None) = Inr para"
      and q: "(if retail_products \<noteq> []
           then and_then (new_CategoryResult e ''retail'' retail_label RETAIL_SHOPS retail_products)
                  (\<lambda>r. Inr (Some r))
           else Inr None) = Inr retail"
      and resp: "resp = \<lparr>para_result = para, retail_result = retail\<rparr>"
      unfolding calculate_best_shop_def and_then_eq_Inr by auto
    have 1: "para_result resp = None \<longleftrightarrow> para_products = []"
      using p resp by (auto simp: and_then_eq_Inr split: if_splits)
    have 2: "retail_result resp = None \<longleftrightarrow> retail_products = []"
      using q resp by (auto simp: and_then_eq_Inr split: if_splits)
    have 3: "calculate_shop_totals_for_products e para_products PARA_SHOPS
            = Inr (shop_totals cr, best_shop cr, best_total cr)" if "para_result resp = Some cr" for cr
      using p resp that new_CategoryResult_Inr [of e "''para''" "''Parapharmacie''" PARA_SHOPS para_products cr]
      by (auto simp: and_then_eq_Inr split: if_splits)
    have 4: "calculate_shop_totals_for_products e retail_products RETAIL_SHOPS
            = Inr (shop_totals cr, best_shop cr, best_total cr)" if "retail_result resp = Some cr" for cr
      using q resp that new_CategoryResult_Inr [of e "''retail''" retail_label RETAIL_SHOPS retail_products cr]
      by (auto simp: and_then_eq_Inr split: if_splits)
    from 1 2 3 4 show ?thesis by blast
  qed
  have b: "\<exists>resp'. calculate_best_shop e para_products retail_products = Inr resp'"
    if p: "para_products = [] \<or> (\<exists>r. calculate_shop_totals_for_products e para_products PARA_SHOPS = Inr r)"
      and q: "retail_products = [] \<or> (\<exists>r. calculate_shop_totals_for_products e retail_products RETAIL_SHOPS = Inr r)"
  proof -
    have "\<exists>para. (if para_products \<noteq> []
           then and_then (new_CategoryResult e ''para'' ''Parapharmacie'' PARA_SHOPS para_products)
                  (\<lambda>r. Inr (Some r))
           else Inr None) = Inr para"
    proof (cases "para_products = []")
      case True
      then show ?thesis by simp
    next
      case False
      with p obtain r where "calculate_shop_totals_for_products e para_products PARA_SHOPS = Inr r" by blast
      from new_CategoryResult_returns [OF this, of "''para''" "''Parapharmacie''"]
      show ?thesis using False by (auto simp: PARA_SHOPS_def)
    qed
    moreover have "\<exists>retail. (if retail_products \<noteq> []
           then and_then (new_CategoryResult e ''retail'' retail_label RETAIL_SHOPS retail_products)
                  (\<lambda>r. Inr (Some r))
           else Inr None) = Inr retail"
    proof (cases "retail_products = []")
      case True
      then show ?thesis by simp
    next
      case False
      with q obtain r where "calculate_shop_totals_for_products e retail_products RETAIL_SHOPS = Inr r" by blast
      from new_CategoryResult_returns [OF this, of "''retail''" retail_label]
      show ?thesis using False by (auto simp: RETAIL_SHOPS_def)
    qed
    ultimately show ?thesis
      unfolding calculate_best_shop_def and_then_eq_Inr by blast
  qed
  from a b show ?thesis by blast
qed

theorem category_result_absent_iff_no_products_witness:
  "calculate_best_shop exact_env [] example_retail
     = Inr \<lparr>para_result = None, retail_result = Some example_retail_result\<rparr>
   \<and> example_retail \<noteq> []
   \<and> calculate_shop_totals_for_products exact_env example_retail RETAIL_SHOPS
       = Inr (shop_totals example_retail_result, best_shop example_retail_result,
              best_total example_retail_result)
   \<and> calculate_best_shop exact_env example_unstocked []
       = Inr \<lparr>para_result = Some example_unstocked_result, retail_result = None\<rparr>
   \<and> example_unstocked \<noteq> []
   \<and> calculate_shop_totals_for_products exact_env example_unstocked PARA_SHOPS = Inr ([], None, None)
   \<and> (\<exists>resp. calculate_best_shop exact_env example_unstocked [] = Inr resp)"
proof -
  note a = category_result_absent_iff_no_products
    [of exact_env "[]" example_retail "\<lparr>para_result = None, retail_result = Some example_retail_result\<rparr>"]
  from a run_retail have 1: "example_retail \<noteq> []" by simp
  from a run_retail have 2: "calculate_shop_totals_for_products exact_env example_retail RETAIL_SHOPS
       = Inr (shop_totals example_retail_result, best_shop example_retail_result,
              best_total example_retail_result)" by simp
  note b = category_result_absent_iff_no_products
    [of exact_env example_unstocked "[]" "\<lparr>para_result = Some example_unstocked_result, retail_result = None\<rparr>"]
  from b run_unstocked have 3: "example_unstocked \<noteq> []" by simp
  from b run_unstocked have 4: "calculate_shop_totals_for_products exact_env example_unstocked PARA_SHOPS
       = Inr ([], None, None)" by (simp add: example_unstocked_result_def)
  from b 4 have 5: "\<exists>resp. calculate_best_shop exact_env example_unstocked [] = Inr resp" by blast
  from run_retail run_unstocked 1 2 3 4 5 show ?thesis by blast
qed

text \<open>
  C9. Every entry of the returned list holds one presentation record per input product,
  in input order (the record at position \<open>i\<close> carries the sku and the title of product
  \<open>i\<close>), so available count and missing count add up to the number of products. A
  product without a usable offer at the entry's shop has a record with no price and
  \<open>available = False\<close> there, and the missing count is at least the number of such
  products.
\<close>

theorem one_entry_per_product:
  assumes "calculate_shop_totals_for_products e ps shop_list = Inr (sts, bs, bt)"
    and "st \<in> set sts"
  shows "length (products st) = length ps
       \<and> available_count st + missing_count st = int (length ps)
       \<and> (\<forall>i<length ps.
             and_then (dict_getitem (ps ! i) ''sku'') (validate_str e) = Inr (sku (products st ! i))
           \<and> and_then (dict_getitem (ps ! i) ''title'') (validate_str e) = Inr (title (products st ! i))
           \<and> (\<not> usable_offer (ps ! i) (shop st) \<longrightarrow>
                 price (products st ! i) = None \<and> \<not> available (products st ! i)))
       \<and> int (length (filter (\<lambda>p. \<not> usable_offer p (shop st)) ps)) \<le> missing_count st"
proof -
  from assms calculate_set obtain s where "st \<in> set (emitted e ps s)" by blast
  from emitted_cases [OF this] obtain acc where
    acc: "products_loop e s ps acc_init = Inr acc" and st: "st = new_ShopTotal e s acc" by blast
  from products_loop_effect [OF acc] show ?thesis
    by (simp add: st new_ShopTotal_def acc_init_def)
qed

theorem one_entry_per_product_witness:
  "calculate_shop_totals_for_products exact_env example_b [''X'', ''Y'', ''Z'']
      = Inr (example_b_result, Some ''Y'', Some (Finite 5))
   \<and> example_b_result ! 0 \<in> set example_b_result
   \<and> \<not> usable_offer (example_b ! 0) (shop (example_b_result ! 0))
   \<and> length (products (example_b_result ! 0)) = length example_b
   \<and> available_count (example_b_result ! 0) + missing_count (example_b_result ! 0) = int (length example_b)
   \<and> price (products (example_b_result ! 0) ! 0) = None
   \<and> \<not> available (products (example_b_result ! 0) ! 0)"
proof -
  have m: "example_b_result ! 0 \<in> set example_b_result"
    by (simp add: example_b_result_def)
  have u: "\<not> usable_offer (example_b ! 0) (shop (example_b_result ! 0))"
    by (simp add: example_b_def example_b_result_def usable_offer_def model_defs)
  have l: "0 < length example_b"
    by (simp add: example_b_def)
  note t = one_entry_per_product [OF run_example_b m]
  from t have 1: "length (products (example_b_result ! 0)) = length example_b" by blast
  from t have 2: "available_count (example_b_result ! 0) + missing_count (example_b_result ! 0)
      = int (length example_b)" by blast
  from t u l have 3: "price (products (example_b_result ! 0) ! 0) = None
      \<and> \<not> available (products (example_b_result ! 0) ! 0)" by blast
  from run_example_b m u 1 2 3 show ?thesis by blast
qed

text \<open>
  C10. Take a run that returns, a shop of the shop list and a product whose offer at that
  shop has a price other than \<open>None\<close> and no \<open>available\<close> key. Then the price converts,
  the product counts at the shop, the shop has an entry in the returned list, and in every
  entry of that shop the record of the product carries the price and \<open>available = True\<close>,
  the price is one of the summands of the rounded total, at the product's place, and the
  product is one of those that the available count counts.
\<close>

theorem offer_without_flag_is_available:
  assumes "calculate_shop_totals_for_products e ps shop_list = Inr (sts, bs, bt)"
    and "s \<in> set shop_list" and "i < length ps"
    and "shop_offer (ps ! i) s = Inr (PDict d)" and "map_of d ''price'' = Some pv" and "pv \<noteq> PNone"
    and "map_of d ''available'' = None"
  shows "\<exists>r. py_float e pv = Inr r
           \<and> counted e s (ps ! i) = Some r
           \<and> (\<exists>st\<in>set sts. shop st = s)
           \<and> (\<forall>st\<in>set sts. shop st = s \<longrightarrow>
                 price (products st ! i) = Some r
               \<and> available (products st ! i)
               \<and> total_price st
                   = round3 e (foldl (fadd e) (Finite 0)
                       (List.map_filter (counted e s) (take i ps) @ r
                          # List.map_filter (counted e s) (drop (Suc i) ps)))
               \<and> available_count st
                   = int (length (List.map_filter (counted e s) (take i ps))) + 1
                     + int (length (List.map_filter (counted e s) (drop (Suc i) ps))))"
proof -
  from assms(3) have mem: "ps ! i \<in> set ps" by simp
  from calculate_steps [OF assms(1) mem assms(2)] obtain a a' where
    step: "product_step e s (ps ! i) a = Inr a'" by blast
  from step product_step_priced [OF assms(4,5,6)]
  have "priced_branch e (ps ! i) (PDict d) a = Inr a'" by simp
  from priced_branch_Inr [OF this assms(5)] obtain r where r: "py_float e pv = Inr r" by blast
  from assms(7) have av: "dict_get d ''available'' (PBool True) = PBool True"
    by (simp add: dict_get_def)
  from counted_priced [OF assms(4,5,6) r] av have c: "counted e s (ps ! i) = Some r" by simp
  from calculate_emits [OF assms(1,2) mem] c have ex: "\<exists>st\<in>set sts. shop st = s" by simp
  have all: "price (products st ! i) = Some r
               \<and> available (products st ! i)
               \<and> total_price st
                   = round3 e (foldl (fadd e) (Finite 0)
                       (List.map_filter (counted e s) (take i ps) @ r
                          # List.map_filter (counted e s) (drop (Suc i) ps)))
               \<and> available_count st
                   = int (length (List.map_filter (counted e s) (take i ps))) + 1
                     + int (length (List.map_filter (counted e s) (drop (Suc i) ps)))"
    if st: "st \<in> set sts" "shop st = s" for st
  proof -
    note en = calculate_entry [OF assms(1) st(1)]
    from en(4) assms(3,4,5,6) st(2) obtain r' where
      r': "py_float e pv = Inr r'" "price (products st ! i) = Some r'"
      and v: "validate_bool e (dict_get d ''available'' (PBool True)) = Inr (available (products st ! i))"
      by blast
    from r r' have 1: "price (products st ! i) = Some r" by simp
    from v av have 2: "available (products st ! i)" by (simp add: validate_bool_def)
    note sp = map_filter_split [where f = "counted e s" and xs = ps and i = i and y = r, OF assms(3) c]
    from en(1) have 3: "total_price st
                   = round3 e (foldl (fadd e) (Finite 0)
                       (List.map_filter (counted e s) (take i ps) @ r
                          # List.map_filter (counted e s) (drop (Suc i) ps)))"
      by (simp only: st(2) sp)
    from en(2) have "available_count st = int (length (List.map_filter (counted e s) ps))"
      by (simp add: st(2) length_map_filter)
    then have 4: "available_count st
                   = int (length (List.map_filter (counted e s) (take i ps))) + 1
                     + int (length (List.map_filter (counted e s) (drop (Suc i) ps)))"
      by (simp only: sp) simp
    from 1 2 3 4 show ?thesis by blast
  qed
  from r c ex all show ?thesis by blast
qed

theorem offer_without_flag_is_available_witness:
  "calculate_shop_totals_for_products exact_env example_c [''Z'', ''Y'', ''X'']
      = Inr (example_c_result, Some ''Y'', Some (Finite 6))
   \<and> ''X'' \<in> set [''Z'', ''Y'', ''X'']
   \<and> 1 < length example_c
   \<and> shop_offer (example_c ! 1) ''X'' = Inr (PDict [(''price'', PInt 1)])
   \<and> map_of [(''price'', PInt 1)] ''available'' = None
   \<and> py_float exact_env (PInt 1) = Inr (Finite 1)
   \<and> example_c_result ! 1 \<in> set example_c_result
   \<and> shop (example_c_result ! 1) = ''X''
   \<and> price (products (example_c_result ! 1) ! 1) = Some (Finite 1)
   \<and> available (products (example_c_result ! 1) ! 1)
   \<and> total_price (example_c_result ! 1)
       = round3 exact_env (foldl (fadd exact_env) (Finite 0)
           (List.map_filter (counted exact_env ''X'') (take 1 example_c) @ Finite 1
              # List.map_filter (counted exact_env ''X'') (drop (Suc 1) example_c)))"
proof -
  have run: "calculate_shop_totals_for_products exact_env example_c [''Z'', ''Y'', ''X'']
      = Inr (example_c_result, Some ''Y'', Some (Finite 6))"
    by (simp add: example_c_def example_c_result_def example_c_raw_def model_defs exact_defs)
  have h: "''X'' \<in> set [''Z'', ''Y'', ''X'']" "1 < length example_c"
    "shop_offer (example_c ! 1) ''X'' = Inr (PDict [(''price'', PInt 1)])"
    "map_of [(''price'', PInt 1)] ''price'' = Some (PInt 1)" "PInt 1 \<noteq> PNone"
    "map_of [(''price'', PInt 1)] ''available'' = None"
    by (simp_all add: example_c_def model_defs)
  have f: "py_float exact_env (PInt 1) = Inr (Finite 1)" by (simp add: exact_env_def)
  have m: "example_c_result ! 1 \<in> set example_c_result" "shop (example_c_result ! 1) = ''X''"
    by (simp_all add: example_c_result_def example_c_raw_def)
  from offer_without_flag_is_available [OF run h] obtain r where
    r: "py_float exact_env (PInt 1) = Inr r"
    and all: "\<forall>st\<in>set example_c_result. shop st = ''X'' \<longrightarrow>
                 price (products st ! 1) = Some r
               \<and> available (products st ! 1)
               \<and> total_price st
                   = round3 exact_env (foldl (fadd exact_env) (Finite 0)
                       (List.map_filter (counted exact_env ''X'') (take 1 example_c) @ r
                          # List.map_filter (counted exact_env ''X'') (drop (Suc 1) example_c)))
               \<and> available_count st
                   = int (length (List.map_filter (counted exact_env ''X'') (take 1 example_c))) + 1
                     + int (length (List.map_filter (counted exact_env ''X'') (drop (Suc 1) example_c)))"
    by blast
  from r f have "r = Finite 1" by simp
  with all m have c: "price (products (example_c_result ! 1) ! 1) = Some (Finite 1)
     \<and> available (products (example_c_result ! 1) ! 1)
     \<and> total_price (example_c_result ! 1)
       = round3 exact_env (foldl (fadd exact_env) (Finite 0)
           (List.map_filter (counted exact_env ''X'') (take 1 example_c) @ Finite 1
              # List.map_filter (counted exact_env ''X'') (drop (Suc 1) example_c)))"
    by blast
  from run h(1,2,3,6) f m c show ?thesis by blast
qed

end
